theory Spec2Isabelle
  imports Main "HOL-Library.Code_Target_Nat"
begin

section \<open>Numbers\<close>

text \<open>
  Every number of the program is a JavaScript Number, a double. The numbers that occur
  are integral: the counts, the offsets read by \<open>parseInt\<close>, and their sums,
  differences, maxima and minima. The model therefore has the integral doubles
  (\<open>Finite\<close>, both zeros being the one \<open>Finite 0\<close>), the two infinities and the
  not-a-number value. A double has 53 significant bits and lies below \<open>2 ^ 1024\<close> in
  magnitude; \<open>Finite n\<close> is a number of the program when \<open>n\<close> is such an integer
  (\<open>isDouble\<close> below), and every operation returns such numbers.
\<close>

datatype number = NaN | Finite int | PosInfinity | NegInfinity

text \<open>The number of low bits that a natural number has beyond 53 significant bits.\<close>

fun excessBits :: "nat \<Rightarrow> nat" where
  "excessBits m = (if m < 2 ^ 53 then 0 else Suc (excessBits (m div 2)))"

declare excessBits.simps [simp del]

text \<open>Rounding to 53 significant bits, to the nearest value, a tie to the even one.\<close>

definition roundMagnitude :: "nat \<Rightarrow> nat" where
  "roundMagnitude m =
     (let ulp = 2 ^ excessBits m;
          q = m div ulp;
          r = m mod ulp
      in if 2 * r < ulp then q * ulp
         else if ulp < 2 * r then (q + 1) * ulp
         else if even q then q * ulp else (q + 1) * ulp)"

text \<open>The Number value of a mathematical integer; too large a magnitude gives an infinity.\<close>

definition toDouble :: "int \<Rightarrow> number" where
  "toDouble m =
     (let r = roundMagnitude (nat \<bar>m\<bar>)
      in if 2 ^ 1024 \<le> r then (if m < 0 then NegInfinity else PosInfinity)
         else Finite (if m < 0 then - int r else int r))"

text \<open>The integers that are doubles: rounding leaves them as they are.\<close>

definition isDouble :: "int \<Rightarrow> bool" where
  "isDouble n = (toDouble n = Finite n)"

definition isNaN :: "number \<Rightarrow> bool" where
  "isNaN x = (x = NaN)"

text \<open>Negation, addition, subtraction and the comparisons of doubles.\<close>

instantiation number :: "{uminus, plus, minus, ord}"
begin

fun uminus_number :: "number \<Rightarrow> number" where
  "uminus_number NaN = NaN"
| "uminus_number (Finite n) = Finite (- n)"
| "uminus_number PosInfinity = NegInfinity"
| "uminus_number NegInfinity = PosInfinity"

fun plus_number :: "number \<Rightarrow> number \<Rightarrow> number" where
  "plus_number NaN y = NaN"
| "plus_number x NaN = NaN"
| "plus_number PosInfinity NegInfinity = NaN"
| "plus_number NegInfinity PosInfinity = NaN"
| "plus_number PosInfinity y = PosInfinity"
| "plus_number x PosInfinity = PosInfinity"
| "plus_number NegInfinity y = NegInfinity"
| "plus_number x NegInfinity = NegInfinity"
| "plus_number (Finite a) (Finite b) = toDouble (a + b)"

definition minus_number :: "number \<Rightarrow> number \<Rightarrow> number" where
  "minus_number x y = x + (- y)"

fun less_number :: "number \<Rightarrow> number \<Rightarrow> bool" where
  "less_number NaN y = False"
| "less_number x NaN = False"
| "less_number x NegInfinity = False"
| "less_number NegInfinity y = True"
| "less_number PosInfinity y = False"
| "less_number x PosInfinity = True"
| "less_number (Finite a) (Finite b) = (a < b)"

definition less_eq_number :: "number \<Rightarrow> number \<Rightarrow> bool" where
  "less_eq_number x y = (x < y \<or> (x = y \<and> x \<noteq> NaN))"

instance ..

end

text \<open>\<open>Math.max\<close> and \<open>Math.min\<close>: not a number as soon as one argument is.\<close>

fun Math_max :: "number \<Rightarrow> number \<Rightarrow> number" where
  "Math_max NaN y = NaN"
| "Math_max x NaN = NaN"
| "Math_max PosInfinity y = PosInfinity"
| "Math_max x PosInfinity = PosInfinity"
| "Math_max NegInfinity y = y"
| "Math_max x NegInfinity = x"
| "Math_max (Finite a) (Finite b) = Finite (max a b)"

fun Math_min :: "number \<Rightarrow> number \<Rightarrow> number" where
  "Math_min NaN y = NaN"
| "Math_min x NaN = NaN"
| "Math_min NegInfinity y = NegInfinity"
| "Math_min x NegInfinity = NegInfinity"
| "Math_min PosInfinity y = y"
| "Math_min x PosInfinity = x"
| "Math_min (Finite a) (Finite b) = Finite (min a b)"

section \<open>Cursor codec\<close>

text \<open>
  JavaScript strings are modelled as \<open>string\<close> and binary buffers as lists of byte values
  (\<open>nat\<close> below 256).
\<close>

definition PREFIX :: string where
  "PREFIX = ''mongodbconnection:''"

subsection \<open>The platform's buffer conversions\<close>

text \<open>\<open>new Buffer(str, 'ascii')\<close>: one byte per character.\<close>

definition asciiBytes :: "string \<Rightarrow> nat list" where
  "asciiBytes str = map of_char str"

text \<open>\<open>buf.toString('ascii')\<close>: the high bit of every byte is cleared.\<close>

definition asciiString :: "nat list \<Rightarrow> string" where
  "asciiString buf = map (\<lambda>b. char_of (b mod 128)) buf"

text \<open>
  The base64 alphabet: \<open>A\<close> to \<open>Z\<close>, \<open>a\<close> to \<open>z\<close>, \<open>0\<close> to \<open>9\<close>, \<open>+\<close> and \<open>/\<close>,
  given by the character codes.
\<close>

definition b64char :: "nat \<Rightarrow> char" where
  "b64char i =
     (if i < 26 then char_of (65 + i)
      else if i < 52 then char_of (71 + i)
      else if i < 62 then char_of (i - 4)
      else if i = 62 then CHR ''+'' else CHR ''/'')"

text \<open>\<open>buf.toString('base64')\<close>: three bytes give four characters, the tail is padded.\<close>

fun base64Encode :: "nat list \<Rightarrow> string" where
  "base64Encode [] = []"
| "base64Encode [a] =
     [b64char (a div 4), b64char ((a mod 4) * 16), CHR ''='', CHR ''='']"
| "base64Encode [a, b] =
     [b64char (a div 4), b64char ((a mod 4) * 16 + b div 16),
      b64char ((b mod 16) * 4), CHR ''='']"
| "base64Encode (a # b # c # rest) =
     b64char (a div 4) # b64char ((a mod 4) * 16 + b div 16) #
     b64char ((b mod 16) * 4 + c div 64) # b64char (c mod 64) # base64Encode rest"

text \<open>
  The value of one character for the decoder: the standard alphabet and the URL-safe
  variants of its last two characters; every other character has no value.
\<close>

definition unb64 :: "char \<Rightarrow> nat option" where
  "unb64 c =
     (let n = (of_char c :: nat) in
      if 65 \<le> n \<and> n \<le> 90 then Some (n - 65)
      else if 97 \<le> n \<and> n \<le> 122 then Some (n - 71)
      else if 48 \<le> n \<and> n \<le> 57 then Some (n + 4)
      else if c = CHR ''+'' \<or> c = CHR ''-'' then Some 62
      else if c = CHR ''/'' \<or> c = CHR ''_'' then Some 63
      else None)"

text \<open>
  \<open>new Buffer(b64, 'base64')\<close> never fails: decoding stops at the first \<open>=\<close>, characters
  without a value are skipped, and an incomplete last group gives the bytes it determines.
\<close>

definition sextets :: "string \<Rightarrow> nat list" where
  "sextets b64 = List.map_filter unb64 (takeWhile (\<lambda>c. c \<noteq> CHR ''='') b64)"

fun sextetsToBytes :: "nat list \<Rightarrow> nat list" where
  "sextetsToBytes (p # q # r # s # rest) =
     (p * 4 + q div 16) # ((q mod 16) * 16 + r div 4) # ((r mod 4) * 64 + s) #
     sextetsToBytes rest"
| "sextetsToBytes [p, q, r] = [p * 4 + q div 16, (q mod 16) * 16 + r div 4]"
| "sextetsToBytes [p, q] = [p * 4 + q div 16]"
| "sextetsToBytes _ = []"

definition base64Decode :: "string \<Rightarrow> nat list" where
  "base64Decode b64 = sextetsToBytes (sextets b64)"

subsection \<open>The exported codec functions\<close>

definition base64 :: "string \<Rightarrow> string" where
  "base64 str = base64Encode (asciiBytes str)"

definition unbase64 :: "string \<Rightarrow> string" where
  "unbase64 b64 = asciiString (base64Decode b64)"

subsection \<open>Numbers and strings\<close>

text \<open>The decimal digits of a natural number.\<close>

fun natToString :: "nat \<Rightarrow> string" where
  "natToString n =
     (if n < 10 then [char_of (48 + n)]
      else natToString (n div 10) @ [char_of (48 + n mod 10)])"

declare natToString.simps [simp del]

definition digitCount :: "nat \<Rightarrow> nat" where
  "digitCount m = length (natToString m)"

text \<open>
  The conversion of a Number to a string prints the shortest run of significant digits
  that still reads back as the same double. \<open>shortest m j\<close> looks for it among the
  multiples of \<open>10 ^ j\<close> next to \<open>m\<close>, then of \<open>10 ^ (j - 1)\<close>, and so on; of two
  multiples that both read back as \<open>m\<close> it takes the closer one, the even one when they
  are equally close.
\<close>

fun shortest :: "nat \<Rightarrow> nat \<Rightarrow> nat" where
  "shortest m 0 = m"
| "shortest m (Suc j) =
     (let unit = 10 ^ Suc j;
          lo = (m div unit) * unit;
          hi = lo + unit
      in if roundMagnitude lo = m \<and> roundMagnitude hi = m then
           (if m - lo < hi - m then lo
            else if hi - m < m - lo then hi
            else if even (m div unit) then lo else hi)
         else if roundMagnitude lo = m then lo
         else if roundMagnitude hi = m then hi
         else shortest m j)"

text \<open>
  A positive integral double: up to 21 digits are printed in full, the significant
  digits followed by zeros; a longer numeral is printed in exponent form.
\<close>

definition positiveToString :: "nat \<Rightarrow> string" where
  "positiveToString m =
     (let digits = natToString (shortest m (digitCount m - 1));
          n = length digits
      in if n \<le> 21 then digits
         else (case rev (dropWhile (\<lambda>c. c = CHR ''0'') (rev digits)) of
                 [] \<Rightarrow> []
               | c # rest \<Rightarrow>
                   c # (if rest = [] then [] else CHR ''.'' # rest) @
                   ''e+'' @ natToString (n - 1)))"

text \<open>The string that concatenation makes of a number.\<close>

definition numberToString :: "number \<Rightarrow> string" where
  "numberToString x =
     (case x of
        NaN \<Rightarrow> ''NaN''
      | PosInfinity \<Rightarrow> ''Infinity''
      | NegInfinity \<Rightarrow> ''-Infinity''
      | Finite n \<Rightarrow>
          if n = 0 then ''0''
          else if n < 0 then CHR ''-'' # positiveToString (nat (- n))
          else positiveToString (nat n))"

text \<open>
  \<open>parseInt(string, 10)\<close>: leading white space is dropped, one sign is read, and the
  longest run of decimal digits that follows is the value, converted to a Number; with
  no digit the result is not a number.
\<close>

definition isWhiteSpace :: "char \<Rightarrow> bool" where
  "isWhiteSpace c = ((of_char c :: nat) \<in> {9, 10, 11, 12, 13, 32, 160})"

definition isDigit :: "char \<Rightarrow> bool" where
  "isDigit c = (48 \<le> (of_char c :: nat) \<and> (of_char c :: nat) \<le> 57)"

definition digitValue :: "char \<Rightarrow> nat" where
  "digitValue c = of_char c - 48"

definition digitsValue :: "string \<Rightarrow> nat" where
  "digitsValue Z = foldl (\<lambda>acc c. 10 * acc + digitValue c) 0 Z"

definition stripSign :: "string \<Rightarrow> string" where
  "stripSign S =
     (case S of [] \<Rightarrow> []
      | c # r \<Rightarrow> if c = CHR ''+'' \<or> c = CHR ''-'' then r else S)"

definition signOf :: "string \<Rightarrow> int" where
  "signOf S = (case S of [] \<Rightarrow> 1 | c # r \<Rightarrow> if c = CHR ''-'' then - 1 else 1)"

definition parseInt :: "string \<Rightarrow> number" where
  "parseInt inputString =
     (let S = dropWhile isWhiteSpace inputString;
          Z = takeWhile isDigit (stripSign S)
      in if Z = [] then NaN else toDouble (signOf S * int (digitsValue Z)))"

definition cursorToOffset :: "string \<Rightarrow> number" where
  "cursorToOffset cursor = parseInt (drop (length PREFIX) (unbase64 cursor))"

definition getOffsetWithDefault :: "string option \<Rightarrow> number \<Rightarrow> number" where
  "getOffsetWithDefault cursor defaultOffset =
     (case cursor of
        None \<Rightarrow> defaultOffset
      | Some c \<Rightarrow>
          (let offset = cursorToOffset c
           in if isNaN offset then defaultOffset else offset))"

definition offsetToCursor :: "number \<Rightarrow> string" where
  "offsetToCursor offset = base64 (PREFIX @ numberToString offset)"

section \<open>Connection arguments and results\<close>

text \<open>
  The cursors \<open>after\<close> and \<open>before\<close> are \<open>undefined\<close> (\<open>None\<close>) or a string. The counts
  \<open>first\<close> and \<open>last\<close> are \<open>undefined\<close>, \<open>null\<close> or a number; in arithmetic \<open>null\<close>
  counts as 0. The fields for \<open>before\<close> and \<open>last\<close> are \<open>beforeArg\<close> and \<open>lastArg\<close>.
\<close>

datatype count_arg = Undefined | Null | Num number

record connection_args =
  after :: "string option"
  beforeArg :: "string option"
  first :: count_arg
  lastArg :: count_arg

record 'v edge =
  cursor :: string
  node :: 'v

record page_info =
  startCursor :: "string option"
  endCursor :: "string option"
  hasPreviousPage :: bool
  hasNextPage :: bool

record 'v connection =
  edges :: "'v edge list"
  pageInfo :: page_info

section \<open>The offset window\<close>

text \<open>The local constants of a builder once its window is computed.\<close>

record window =
  beforeOffset :: number
  afterOffset :: number
  startOffset :: number
  endOffset :: number
  skip :: number
  limit :: number
  lowerBound :: number
  upperBound :: number

text \<open>A cursor used as a condition: \<open>undefined\<close> and the empty string are falsy.\<close>

definition truthy :: "string option \<Rightarrow> bool" where
  "truthy c = (case c of None \<Rightarrow> False | Some str \<Rightarrow> str \<noteq> [])"

text \<open>The window of \<open>connectionFromMongoCursor\<close> (lines 42 to 56, 77 and 78).\<close>

definition cursorWindow :: "number \<Rightarrow> connection_args \<Rightarrow> window" where
  "cursorWindow count args =
     (let beforeOffset0 = getOffsetWithDefault (beforeArg args) count;
          afterOffset0 = getOffsetWithDefault (after args) (Finite (- 1));
          startOffset0 = Math_max (Finite (- 1)) afterOffset0 + Finite 1;
          endOffset0 = Math_min count beforeOffset0;
          endOffset1 =
            (case first args of
               Undefined \<Rightarrow> endOffset0
             | Null \<Rightarrow> Math_min endOffset0 (startOffset0 + Finite 0)
             | Num n \<Rightarrow> Math_min endOffset0 (startOffset0 + n));
          startOffset1 =
            (case lastArg args of
               Undefined \<Rightarrow> startOffset0
             | Null \<Rightarrow> Math_max startOffset0 (endOffset1 - Finite 0)
             | Num n \<Rightarrow> Math_max startOffset0 (endOffset1 - n))
      in \<lparr>beforeOffset = beforeOffset0, afterOffset = afterOffset0,
          startOffset = startOffset1, endOffset = endOffset1,
          skip = Math_max startOffset1 (Finite 0), limit = endOffset1 - startOffset1,
          lowerBound = (if truthy (after args) then afterOffset0 + Finite 1 else Finite 0),
          upperBound =
            (if truthy (beforeArg args) then Math_min beforeOffset0 count else count)\<rparr>)"

text \<open>
  The window of \<open>connectionFromMongooseQuery\<close> (lines 95 to 110, 135 and 136); lines
  162 to 177, 202 and 203 of \<open>connectionFromMongooseAggregate\<close> are the same text.
\<close>

definition queryWindow :: "number \<Rightarrow> connection_args \<Rightarrow> window" where
  "queryWindow count args =
     (let beforeOffset0 = getOffsetWithDefault (beforeArg args) count;
          afterOffset0 = getOffsetWithDefault (after args) (Finite (- 1));
          startOffset0 = Math_max (Finite (- 1)) afterOffset0 + Finite 1;
          endOffset0 = Math_min count beforeOffset0;
          endOffset1 =
            (case first args of
               Undefined \<Rightarrow> endOffset0
             | Null \<Rightarrow> Math_min endOffset0 (startOffset0 + Finite 0)
             | Num n \<Rightarrow> Math_min endOffset0 (startOffset0 + n));
          startOffset1 =
            (case lastArg args of
               Undefined \<Rightarrow> startOffset0
             | Null \<Rightarrow> Math_min startOffset0 (endOffset1 - Finite 0)
             | Num n \<Rightarrow> Math_min startOffset0 (endOffset1 - n))
      in \<lparr>beforeOffset = beforeOffset0, afterOffset = afterOffset0,
          startOffset = startOffset1, endOffset = endOffset1,
          skip = Math_max startOffset1 (Finite 0), limit = endOffset1 - startOffset1,
          lowerBound = (if truthy (after args) then afterOffset0 + Finite 1 else Finite 0),
          upperBound =
            (if truthy (beforeArg args) then Math_min beforeOffset0 count else count)\<rparr>)"

section \<open>Edges and page information\<close>

text \<open>
  \<open>array.map(f)\<close> calls \<open>f(value, index, array)\<close> once for each element, in ascending
  index order, and collects the results.
\<close>

fun mapFrom :: "nat \<Rightarrow> ('a \<Rightarrow> nat \<Rightarrow> 'b) \<Rightarrow> 'a list \<Rightarrow> 'b list" where
  "mapFrom index f [] = []"
| "mapFrom index f (value # rest) = f value index # mapFrom (Suc index) f rest"

definition arrayMap :: "('a \<Rightarrow> nat \<Rightarrow> 'a list \<Rightarrow> 'b) \<Rightarrow> 'a list \<Rightarrow> 'b list" where
  "arrayMap f array = mapFrom 0 (\<lambda>value index. f value index array) array"

text \<open>
  The part that the three builders share word for word (lines 65 to 88): the optional
  mapper (\<open>None\<close> is any value that is not a function), the edges and the page information.
  An array index is a number below \<open>2 ^ 32\<close>.
\<close>

definition assemble ::
  "window \<Rightarrow> connection_args \<Rightarrow> ('v \<Rightarrow> nat \<Rightarrow> 'v list \<Rightarrow> 'v) option \<Rightarrow> 'v list \<Rightarrow> 'v connection"
where
  "assemble w args mapper fetched =
     (let slice = (case mapper of None \<Rightarrow> fetched | Some f \<Rightarrow> arrayMap f fetched);
          edgeList =
            arrayMap (\<lambda>value index array.
              \<lparr>cursor = offsetToCursor (startOffset w + Finite (int index)), node = value\<rparr>)
              slice;
          firstEdge = (case edgeList of [] \<Rightarrow> None | e # rest \<Rightarrow> Some e);
          lastEdge = (if edgeList = [] then None else Some (last edgeList))
      in \<lparr>edges = edgeList,
          pageInfo =
            \<lparr>startCursor = map_option cursor firstEdge,
             endCursor = map_option cursor lastEdge,
             hasPreviousPage =
               (if lastArg args \<noteq> Null then startOffset w > lowerBound w else False),
             hasNextPage =
               (if first args \<noteq> Null then endOffset w < upperBound w else False)\<rparr>\<rparr>)"

section \<open>Data sources\<close>

text \<open>
  The driver cursor, the query and the aggregation are objects of an outside library.
  A builder sees them through their methods, which act on the state \<open>'q\<close> of the
  receiving object: duplication, the count, the grouping stage that counts an
  aggregation (it returns the count fields of the result rows), \<open>skip\<close>, \<open>limit\<close> and
  the terminal fetch (\<open>toArray\<close>, \<open>find\<close>, \<open>exec\<close>).
\<close>

record ('q, 'v) source_ops =
  cloneOp :: "'q \<Rightarrow> 'q"
  countOp :: "'q \<Rightarrow> number"
  groupOp :: "'q \<Rightarrow> 'q \<times> number list"
  skipOp :: "number \<Rightarrow> 'q \<Rightarrow> 'q"
  limitOp :: "number \<Rightarrow> 'q \<Rightarrow> 'q"
  fetchOp :: "'q \<Rightarrow> 'v list"

text \<open>
  Objects live in a store, a list indexed by address; a new object takes the next free
  address, and the object that a caller hands to a builder is in the store. The calls a
  builder makes are recorded with the address of their receiver.
\<close>

datatype call =
  Clone nat | Count nat | Group nat | Skip nat number | Limit nat number | Fetch nat

record ('q, 'v) outcome =
  connection :: "'v connection"
  store :: "'q list"
  calls :: "call list"

section \<open>The connection builders\<close>

definition connectionFromMongoCursor ::
  "('q, 'v) source_ops \<Rightarrow> 'q list \<Rightarrow> nat \<Rightarrow> connection_args \<Rightarrow>
   ('v \<Rightarrow> nat \<Rightarrow> 'v list \<Rightarrow> 'v) option \<Rightarrow> ('q, 'v) outcome"
where
  "connectionFromMongoCursor ops h inMongoCursor args mapper =
     (let mongodbCursor = length h;
          h1 = h @ [cloneOp ops (h ! inMongoCursor)];
          count = countOp ops (h1 ! mongodbCursor);
          w = cursorWindow count args;
          h2 = h1[mongodbCursor := skipOp ops (skip w) (h1 ! mongodbCursor)];
          h3 = h2[mongodbCursor := limitOp ops (limit w) (h2 ! mongodbCursor)];
          fetched = (if limit w = Finite 0 then [] else fetchOp ops (h3 ! mongodbCursor))
      in \<lparr>connection = assemble w args mapper fetched,
          store = h3,
          calls = [Clone inMongoCursor, Count mongodbCursor,
                   Skip mongodbCursor (skip w), Limit mongodbCursor (limit w)] @
                  (if limit w = Finite 0 then [] else [Fetch mongodbCursor])\<rparr>)"

definition connectionFromMongooseQuery ::
  "('q, 'v) source_ops \<Rightarrow> 'q list \<Rightarrow> nat \<Rightarrow> connection_args \<Rightarrow>
   ('v \<Rightarrow> nat \<Rightarrow> 'v list \<Rightarrow> 'v) option \<Rightarrow> ('q, 'v) outcome"
where
  "connectionFromMongooseQuery ops h query args mapper =
     (let mongooseQuery = query;
          count = countOp ops (h ! mongooseQuery);
          w = queryWindow count args;
          h1 = h[mongooseQuery := skipOp ops (skip w) (h ! mongooseQuery)];
          h2 = h1[mongooseQuery := limitOp ops (limit w) (h1 ! mongooseQuery)];
          fetched = (if limit w = Finite 0 then [] else fetchOp ops (h2 ! mongooseQuery))
      in \<lparr>connection = assemble w args mapper fetched,
          store = h2,
          calls = [Count mongooseQuery,
                   Skip mongooseQuery (skip w), Limit mongooseQuery (limit w)] @
                  (if limit w = Finite 0 then [] else [Fetch mongooseQuery])\<rparr>)"

text \<open>
  \<open>cloneAggregation\<close> builds a new aggregation over the same model and pipeline; the
  total is the \<open>count\<close> field of the first row of the grouping, or 0 when there is no
  row or the field is falsy (zero or not a number).
\<close>

definition connectionFromMongooseAggregate ::
  "('q, 'v) source_ops \<Rightarrow> 'q list \<Rightarrow> nat \<Rightarrow> connection_args \<Rightarrow>
   ('v \<Rightarrow> nat \<Rightarrow> 'v list \<Rightarrow> 'v) option \<Rightarrow> ('q, 'v) outcome"
where
  "connectionFromMongooseAggregate ops h aggr args mapper =
     (let mongooseAggr = length h;
          h1 = h @ [cloneOp ops (h ! aggr)];
          countAggr = length h1;
          h2 = h1 @ [cloneOp ops (h1 ! aggr)];
          countArr = snd (groupOp ops (h2 ! countAggr));
          h3 = h2[countAggr := fst (groupOp ops (h2 ! countAggr))];
          count =
            (case countArr of
               [] \<Rightarrow> Finite 0
             | c # rest \<Rightarrow> if c \<noteq> Finite 0 \<and> c \<noteq> NaN then c else Finite 0);
          w = queryWindow count args;
          h4 = h3[mongooseAggr := skipOp ops (skip w) (h3 ! mongooseAggr)];
          h5 = h4[mongooseAggr := limitOp ops (limit w) (h4 ! mongooseAggr)];
          fetched = (if limit w = Finite 0 then [] else fetchOp ops (h5 ! mongooseAggr))
      in \<lparr>connection = assemble w args mapper fetched,
          store = h5,
          calls = [Clone aggr, Clone aggr, Group countAggr,
                   Skip mongooseAggr (skip w), Limit mongooseAggr (limit w)] @
                  (if limit w = Finite 0 then [] else [Fetch mongooseAggr])\<rparr>)"

section \<open>An in-memory source\<close>

text \<open>
  A source over a list of documents with the conventions of the database: \<open>skip\<close> and
  \<open>limit\<close> overwrite the setting, a limit of 0 does not limit at all, and a negative
  limit returns as many documents as its absolute value. Settings that are not finite
  numbers return nothing.
\<close>

record 'v list_source =
  docs :: "'v list"
  skipped :: number
  limited :: number

definition listOps :: "('v list_source, 'v) source_ops" where
  "listOps =
     \<lparr>cloneOp = (\<lambda>q. q),
      countOp = (\<lambda>q. Finite (int (length (docs q)))),
      groupOp = (\<lambda>q. (q, if docs q = [] then [] else [Finite (int (length (docs q)))])),
      skipOp = (\<lambda>n q. q\<lparr>skipped := n\<rparr>),
      limitOp = (\<lambda>n q. q\<lparr>limited := n\<rparr>),
      fetchOp = (\<lambda>q.
        case (skipped q, limited q) of
          (Finite s, Finite l) \<Rightarrow>
            (let rest = drop (nat s) (docs q)
             in if l = 0 then rest else take (nat \<bar>l\<bar>) rest)
        | _ \<Rightarrow> [])\<rparr>"

definition tenDocs :: "int list_source" where
  "tenDocs =
     \<lparr>docs = [0, 1, 2, 3, 4, 5, 6, 7, 8, 9], skipped = Finite 0, limited = Finite 0\<rparr>"

definition noArgs :: connection_args where
  "noArgs = \<lparr>after = None, beforeArg = None, first = Undefined, lastArg = Undefined\<rparr>"

section \<open>The resolver as the specification words it\<close>

text \<open>
  The specification's arguments \<open>first\<close> and \<open>last\<close> are optional numbers. An argument
  of the code is present when it is not \<open>undefined\<close>; \<open>null\<close> then stands for 0.
\<close>

definition supplied :: "count_arg \<Rightarrow> number option" where
  "supplied a =
     (case a of Undefined \<Rightarrow> None | Null \<Rightarrow> Some (Finite 0) | Num n \<Rightarrow> Some n)"

text \<open>Steps 1 to 9 of the specification's Offset Window Resolver.\<close>

definition Resolver ::
  "number \<Rightarrow> string option \<Rightarrow> string option \<Rightarrow> number option \<Rightarrow> number option \<Rightarrow> window"
where
  "Resolver totalCount afterCursor beforeCursor firstCount lastCount =
     (let step1 = getOffsetWithDefault beforeCursor totalCount;
          step2 = getOffsetWithDefault afterCursor (Finite (- 1));
          step3 = Math_max (Finite (- 1)) step2 + Finite 1;
          step4 = Math_min totalCount step1;
          step5 =
            (case firstCount of None \<Rightarrow> step4 | Some n \<Rightarrow> Math_min step4 (step3 + n));
          step6 =
            (case lastCount of None \<Rightarrow> step3 | Some n \<Rightarrow> Math_max step3 (step5 - n))
      in \<lparr>beforeOffset = step1, afterOffset = step2,
          startOffset = step6, endOffset = step5,
          skip = Math_max step6 (Finite 0), limit = Math_max (step5 - step6) (Finite 0),
          lowerBound = (if afterCursor \<noteq> None then step2 + Finite 1 else Finite 0),
          upperBound =
            (if beforeCursor \<noteq> None then Math_min step1 totalCount else totalCount)\<rparr>)"

section \<open>Properties of the numbers\<close>

lemma excessBits_small: "m < 2 ^ 53 \<Longrightarrow> excessBits m = 0"
  by (subst excessBits.simps) simp

lemma excessBits_big: "\<not> m < 2 ^ 53 \<Longrightarrow> excessBits m = Suc (excessBits (m div 2))"
  by (subst excessBits.simps) simp

lemma two_power_less: "(2::nat) ^ a < 2 ^ b \<Longrightarrow> a < b"
  by (rule power_less_imp_less_exp [of 2]) simp_all

lemma excessBits_upper: "m < 2 ^ (53 + excessBits m)"
proof (induction m rule: excessBits.induct)
  case (1 m)
  show ?case
  proof (cases "m < 2 ^ 53")
    case True
    then show ?thesis by (simp add: excessBits_small)
  next
    case False
    with 1 have "m div 2 < 2 ^ (53 + excessBits (m div 2))" by simp
    then have "m < 2 * 2 ^ (53 + excessBits (m div 2))" by linarith
    then show ?thesis
      by (simp only: excessBits_big [OF False] add_Suc_right power_Suc)
  qed
qed

lemma excessBits_lower: "\<not> m < 2 ^ 53 \<Longrightarrow> 2 ^ (52 + excessBits m) \<le> m"
proof (induction m rule: excessBits.induct)
  case (1 m)
  note big = "1.prems"
  show ?case
  proof (cases "m div 2 < 2 ^ 53")
    case True
    then have "excessBits (m div 2) = 0" by (rule excessBits_small)
    then have "excessBits m = Suc 0" by (simp add: excessBits_big [OF big])
    with big show ?thesis by simp
  next
    case False
    with 1 have "2 ^ (52 + excessBits (m div 2)) \<le> m div 2" by simp
    then have "2 * 2 ^ (52 + excessBits (m div 2)) \<le> m" by linarith
    then show ?thesis
      by (simp only: excessBits_big [OF big] add_Suc_right power_Suc)
  qed
qed

lemma excessBits_unique:
  assumes "m < 2 ^ (53 + e)" and "0 < e \<Longrightarrow> 2 ^ (52 + e) \<le> m"
  shows "excessBits m = e"
proof (cases "m < 2 ^ 53")
  case True
  have "e = 0"
  proof (rule ccontr)
    assume "e \<noteq> 0"
    then have pos: "0 < e" by simp
    from assms(2) [OF pos] True have "(2::nat) ^ (52 + e) < 2 ^ 53" by linarith
    then have "52 + e < 53" by (rule two_power_less)
    with pos show False by simp
  qed
  with True show ?thesis by (simp add: excessBits_small)
next
  case False
  have pos: "0 < e"
  proof (rule ccontr)
    assume "\<not> 0 < e"
    with assms(1) False show False by simp
  qed
  from excessBits_lower [OF False] assms(1)
  have "(2::nat) ^ (52 + excessBits m) < 2 ^ (53 + e)" by linarith
  then have a: "52 + excessBits m < 53 + e" by (rule two_power_less)
  from assms(2) [OF pos] excessBits_upper [of m]
  have "(2::nat) ^ (52 + e) < 2 ^ (53 + excessBits m)" by linarith
  then have b: "52 + e < 53 + excessBits m" by (rule two_power_less)
  from a b show ?thesis by simp
qed

lemma roundMagnitude_exact: "m mod 2 ^ excessBits m = 0 \<Longrightarrow> roundMagnitude m = m"
  using div_mult_mod_eq [of m "2 ^ excessBits m"]
  by (simp add: roundMagnitude_def Let_def)

lemma roundMagnitude_small: "m < 2 ^ 53 \<Longrightarrow> roundMagnitude m = m"
  by (simp add: roundMagnitude_exact excessBits_small)

lemma toDouble_small: "\<bar>n\<bar> < 2 ^ 53 \<Longrightarrow> toDouble n = Finite n"
proof -
  assume a: "\<bar>n\<bar> < 2 ^ 53"
  then have "nat \<bar>n\<bar> < 2 ^ 53" by simp
  then have "roundMagnitude (nat \<bar>n\<bar>) = nat \<bar>n\<bar>" by (rule roundMagnitude_small)
  moreover have "nat \<bar>n\<bar> < 2 ^ 1024" using a by simp
  ultimately show ?thesis by (simp add: toDouble_def Let_def)
qed

lemma isDouble_small: "\<bar>n\<bar> < 2 ^ 53 \<Longrightarrow> isDouble n"
  by (simp add: isDouble_def toDouble_small)

text \<open>A multiple of the unit in the last place with at most 53 bits rounds to itself.\<close>

lemma roundMagnitude_multiple:
  assumes c: "c \<le> 2 ^ 53" and low: "0 < e \<Longrightarrow> 2 ^ 52 \<le> c"
  shows "roundMagnitude (c * 2 ^ e) = c * 2 ^ e"
proof (cases "c < 2 ^ 53")
  case True
  have up: "c * 2 ^ e < 2 ^ (53 + e)"
    using True by (simp add: power_add)
  have lo: "0 < e \<Longrightarrow> 2 ^ (52 + e) \<le> c * 2 ^ e"
    using low by (simp add: power_add)
  have "excessBits (c * 2 ^ e) = e" using up lo by (rule excessBits_unique)
  then show ?thesis by (simp add: roundMagnitude_exact)
next
  case False
  with c have eq: "c = 2 ^ 53" by simp
  have up: "c * 2 ^ e < 2 ^ (53 + Suc e)"
    by (simp add: eq power_add)
  have lo: "2 ^ (52 + Suc e) \<le> c * 2 ^ e"
    by (simp add: eq power_add)
  have "excessBits (c * 2 ^ e) = Suc e" using up lo by (rule excessBits_unique)
  moreover have "(c * 2 ^ e) mod 2 ^ Suc e = 0"
    by (simp add: eq)
  ultimately show ?thesis by (simp add: roundMagnitude_exact)
qed

lemma quotient_bounds:
  shows "m div 2 ^ excessBits m < 2 ^ 53"
    and "0 < excessBits m \<Longrightarrow> 2 ^ 52 \<le> m div 2 ^ excessBits m"
proof -
  have "m < 2 ^ 53 * 2 ^ excessBits m"
    using excessBits_upper [of m] by (simp only: power_add)
  then show "m div 2 ^ excessBits m < 2 ^ 53"
    by (simp add: less_mult_imp_div_less)
next
  assume pos: "0 < excessBits m"
  then have "\<not> m < 2 ^ 53" using excessBits_small [of m] by auto
  from excessBits_lower [OF this] have "2 ^ 52 * 2 ^ excessBits m \<le> m"
    by (simp only: power_add)
  then show "2 ^ 52 \<le> m div 2 ^ excessBits m"
    by (simp add: less_eq_div_iff_mult_less_eq)
qed

lemma roundMagnitude_idem: "roundMagnitude (roundMagnitude m) = roundMagnitude m"
proof -
  let ?e = "excessBits m"
  let ?q = "m div 2 ^ ?e"
  have a: "roundMagnitude (?q * 2 ^ ?e) = ?q * 2 ^ ?e"
    using quotient_bounds [of m] by (intro roundMagnitude_multiple) simp_all
  have b: "roundMagnitude ((?q + 1) * 2 ^ ?e) = (?q + 1) * 2 ^ ?e"
    using quotient_bounds [of m] by (intro roundMagnitude_multiple) simp_all
  have "roundMagnitude m = ?q * 2 ^ ?e \<or> roundMagnitude m = (?q + 1) * 2 ^ ?e"
    by (simp add: roundMagnitude_def Let_def)
  with a b show ?thesis by auto
qed

lemma toDouble_isDouble: "toDouble m = Finite n \<Longrightarrow> isDouble n"
proof -
  assume a: "toDouble m = Finite n"
  let ?r = "roundMagnitude (nat \<bar>m\<bar>)"
  from a have r: "?r < 2 ^ 1024" and n: "n = (if m < 0 then - int ?r else int ?r)"
    by (auto simp: toDouble_def Let_def split: if_splits)
  from n have abs: "nat \<bar>n\<bar> = ?r" by (simp split: if_splits)
  have rm: "roundMagnitude (nat \<bar>n\<bar>) = nat \<bar>n\<bar>"
    unfolding abs by (rule roundMagnitude_idem)
  have lt: "nat \<bar>n\<bar> < 2 ^ 1024" using r abs by simp
  have "\<not> (2::nat) ^ 1024 \<le> nat \<bar>n\<bar>" using lt by simp
  then show ?thesis
    unfolding isDouble_def toDouble_def Let_def rm by (simp only: if_False) simp
qed

section \<open>Properties of the codec\<close>

subsection \<open>Base64 decoding inverts encoding\<close>

lemma unb64_b64char: "i < 64 \<Longrightarrow> unb64 (b64char i) = Some i"
  by (auto simp: unb64_def b64char_def Let_def)

lemma unb64_pad: "unb64 CHR ''='' = None"
  by (simp add: unb64_def)

lemma sextets_Cons: "unb64 c = Some v \<Longrightarrow> sextets (c # s) = v # sextets s"
  by (auto simp: sextets_def unb64_pad)

lemma sextets_pad: "sextets (CHR ''='' # s) = []"
  by (simp add: sextets_def)

lemma sextets_Nil: "sextets [] = []"
  by (simp add: sextets_def)

lemma sextet_bounds:
  fixes a b c :: nat
  assumes "a < 256" "b < 256" "c < 256"
  shows "a div 4 < 64" "(a mod 4) * 16 + b div 16 < 64"
    "(b mod 16) * 4 + c div 64 < 64" "c mod 64 < 64"
    "(a mod 4) * 16 < 64" "(b mod 16) * 4 < 64"
  using assms by simp_all

lemma first_byte:
  fixes a b :: nat
  assumes "b < 256"
  shows "(a div 4) * 4 + ((a mod 4) * 16 + b div 16) div 16 = a"
proof -
  have "((a mod 4) * 16 + b div 16) div 16 = a mod 4" using assms by simp
  then show ?thesis by simp
qed

lemma second_byte:
  fixes a b c :: nat
  assumes "b < 256" "c < 256"
  shows "(((a mod 4) * 16 + b div 16) mod 16) * 16 + ((b mod 16) * 4 + c div 64) div 4 = b"
proof -
  have 1: "((a mod 4) * 16 + b div 16) mod 16 = b div 16" using assms by simp
  have 2: "((b mod 16) * 4 + c div 64) div 4 = b mod 16" using assms by simp
  show ?thesis unfolding 1 2 by simp
qed

lemma third_byte:
  fixes b c :: nat
  assumes "c < 256"
  shows "(((b mod 16) * 4 + c div 64) mod 4) * 64 + c mod 64 = c"
proof -
  have 1: "((b mod 16) * 4 + c div 64) mod 4 = c div 64" using assms by simp
  show ?thesis unfolding 1 by simp
qed

lemma tail_bytes:
  fixes a b :: nat
  assumes "b < 256"
  shows "(a div 4) * 4 + ((a mod 4) * 16) div 16 = a"
    "(((a mod 4) * 16 + b div 16) mod 16) * 16 + ((b mod 16) * 4) div 4 = b"
  using assms by simp_all

lemma base64Decode_Encode:
  "\<forall>b \<in> set bs. b < 256 \<Longrightarrow> base64Decode (base64Encode bs) = bs"
  unfolding base64Decode_def
proof (induction bs rule: base64Encode.induct)
  case 1
  show ?case by (simp add: sextets_Nil)
next
  case (2 a)
  then have a: "a < 256" by simp
  show ?case
    using sextet_bounds(1,5)[OF a a a] tail_bytes(1)[OF a, of a]
    by (simp add: sextets_Cons unb64_b64char sextets_pad)
next
  case (3 a b)
  then have a: "a < 256" and b: "b < 256" by simp_all
  show ?case
    using sextet_bounds(1,2,6)[OF a b b] first_byte[OF b, of a] tail_bytes(2)[OF b, of a]
    by (simp add: sextets_Cons unb64_b64char sextets_pad)
next
  case (4 a b c rest)
  then have a: "a < 256" and b: "b < 256" and c: "c < 256"
    and r: "\<forall>b \<in> set rest. b < 256" by simp_all
  show ?case
    using sextet_bounds(1,2,3,4)[OF a b c] first_byte[OF b, of a] second_byte[OF b c, of a]
      third_byte[OF c, of b] "4.IH"[OF r]
    by (simp add: sextets_Cons unb64_b64char)
qed

lemma asciiString_asciiBytes:
  "\<forall>c \<in> set s. (of_char c :: nat) < 128 \<Longrightarrow> asciiString (asciiBytes s) = s"
  by (induction s) (simp_all add: asciiString_def asciiBytes_def)

lemma asciiBytes_bound: "\<forall>b \<in> set (asciiBytes s). b < 256"
  by (simp add: asciiBytes_def)

lemma unbase64_base64:
  "\<forall>c \<in> set s. (of_char c :: nat) < 128 \<Longrightarrow> unbase64 (base64 s) = s"
  by (simp add: unbase64_def base64_def base64Decode_Encode asciiBytes_bound asciiString_asciiBytes)

subsection \<open>Digits\<close>

lemma natToString_digits: "\<forall>c \<in> set (natToString n). isDigit c"
proof (induction n rule: natToString.induct)
  case (1 n)
  show ?case
  proof (cases "n < 10")
    case True
    then show ?thesis by (subst natToString.simps) (simp add: isDigit_def)
  next
    case False
    have "n mod 10 < 10" by simp
    then have "isDigit (char_of (48 + n mod 10))" by (simp add: isDigit_def)
    with False 1 show ?thesis by (subst natToString.simps) simp
  qed
qed

lemma natToString_not_Nil: "natToString n \<noteq> []"
  by (subst natToString.simps) simp

lemma digitsValue_snoc: "digitsValue (Z @ [c]) = 10 * digitsValue Z + digitValue c"
  by (simp add: digitsValue_def)

lemma digitsValue_natToString: "digitsValue (natToString n) = n"
proof (induction n rule: natToString.induct)
  case (1 n)
  show ?case
  proof (cases "n < 10")
    case True
    then show ?thesis
      by (subst natToString.simps) (simp add: digitsValue_def digitValue_def)
  next
    case False
    have "n mod 10 < 10" by simp
    then have "digitValue (char_of (48 + n mod 10)) = n mod 10"
      by (simp add: digitValue_def)
    with False 1 show ?thesis
      by (subst natToString.simps) (simp add: digitsValue_snoc)
  qed
qed

lemma isDigit_not_space: "isDigit c \<Longrightarrow> \<not> isWhiteSpace c"
  by (auto simp: isDigit_def isWhiteSpace_def)

lemma isDigit_not_sign: "isDigit c \<Longrightarrow> c \<noteq> CHR ''+'' \<and> c \<noteq> CHR ''-''"
  by (auto simp: isDigit_def)

lemma parseInt_digits:
  assumes "Z \<noteq> []" "\<forall>c \<in> set Z. isDigit c"
  shows "parseInt Z = toDouble (int (digitsValue Z))"
proof -
  from assms obtain c r where Z: "Z = c # r" and c: "isDigit c" by (cases Z) auto
  have S: "dropWhile isWhiteSpace Z = Z"
    using c by (simp add: Z isDigit_not_space)
  have P: "stripSign Z = Z"
    using isDigit_not_sign[OF c] by (simp add: Z stripSign_def)
  have G: "signOf Z = 1"
    using isDigit_not_sign[OF c] by (simp add: Z signOf_def)
  have T: "takeWhile isDigit Z = Z"
    using assms(2) by (simp add: takeWhile_eq_all_conv)
  show ?thesis
    using assms(1) by (simp add: parseInt_def Let_def S P G T)
qed

lemma parseInt_minus_digits:
  assumes "Z \<noteq> []" "\<forall>c \<in> set Z. isDigit c"
  shows "parseInt (CHR ''-'' # Z) = toDouble (- int (digitsValue Z))"
proof -
  have T: "takeWhile isDigit Z = Z" using assms(2) by (simp add: takeWhile_eq_all_conv)
  show ?thesis
    using assms(1)
    by (simp add: parseInt_def Let_def stripSign_def signOf_def T isWhiteSpace_def)
qed

lemma parseInt_natToString: "parseInt (natToString y) = toDouble (int y)"
  by (simp add: parseInt_digits natToString_not_Nil natToString_digits digitsValue_natToString)

lemma parseInt_minus_natToString:
  "parseInt (CHR ''-'' # natToString y) = toDouble (- int y)"
  by (simp add: parseInt_minus_digits natToString_not_Nil natToString_digits
      digitsValue_natToString)

lemma less_power_digitCount: "m < 10 ^ digitCount m"
  unfolding digitCount_def
proof (induction m rule: natToString.induct)
  case (1 n)
  show ?case
  proof (cases "n < 10")
    case True
    then show ?thesis by (subst natToString.simps) simp
  next
    case False
    with 1 have "n div 10 < 10 ^ length (natToString (n div 10))" by simp
    then have "n < 10 * 10 ^ length (natToString (n div 10))" by linarith
    with False show ?thesis by (subst natToString.simps) simp
  qed
qed

lemma digitCount_le: "m < 10 ^ k \<Longrightarrow> 0 < k \<Longrightarrow> digitCount m \<le> k"
  unfolding digitCount_def
proof (induction m arbitrary: k rule: natToString.induct)
  case (1 n)
  show ?case
  proof (cases "n < 10")
    case True
    with "1.prems" show ?thesis by (subst natToString.simps) simp
  next
    case False
    from "1.prems" obtain k' where k: "k = Suc k'" by (cases k) auto
    have pos: "0 < k'"
    proof (rule ccontr)
      assume "\<not> 0 < k'"
      with k "1.prems" False show False by simp
    qed
    from "1.prems" k have "n div 10 < 10 ^ k'" by simp
    from "1.IH" [OF False this pos] have "length (natToString (n div 10)) \<le> k'" .
    with False k show ?thesis by (subst natToString.simps) simp
  qed
qed

subsection \<open>The shortest digits read back as the same double\<close>

lemma shortest_reads_back:
  "roundMagnitude m = m \<Longrightarrow> roundMagnitude (shortest m j) = m"
  by (induction j) (simp_all add: Let_def)

lemma next_multiple_bound:
  fixes m :: nat
  assumes "m < 10 ^ d" "j \<le> d"
  shows "(m div 10 ^ j) * 10 ^ j + 10 ^ j \<le> 10 ^ d"
proof -
  from assms(2) have split: "(10::nat) ^ d = 10 ^ (d - j) * 10 ^ j"
    by (simp add: power_add [symmetric])
  with assms(1) have "m div 10 ^ j < 10 ^ (d - j)"
    by (simp add: less_mult_imp_div_less)
  then have "m div 10 ^ j + 1 \<le> 10 ^ (d - j)" by simp
  then have "(m div 10 ^ j + 1) * 10 ^ j \<le> 10 ^ (d - j) * 10 ^ j"
    by (rule mult_le_mono1)
  then show ?thesis by (simp add: split algebra_simps)
qed

lemma shortest_bound: "m < 10 ^ d \<Longrightarrow> j < d \<Longrightarrow> shortest m j \<le> 10 ^ d"
proof (induction j)
  case 0
  then show ?case by simp
next
  case (Suc j)
  have lo: "(m div 10 ^ Suc j) * 10 ^ Suc j \<le> 10 ^ d"
    using Suc.prems(1) div_mult_mod_eq [of m "10 ^ Suc j"] by linarith
  have hi: "(m div 10 ^ Suc j) * 10 ^ Suc j + 10 ^ Suc j \<le> 10 ^ d"
    using Suc.prems by (intro next_multiple_bound) simp_all
  have rec: "shortest m j \<le> 10 ^ d" using Suc by simp
  show ?case
    using lo hi rec by (simp only: shortest.simps Let_def split: if_split) simp
qed

subsection \<open>Reading back a printed number\<close>

lemma shortest_step:
  "0 < j \<Longrightarrow> shortest m j =
     (let unit = 10 ^ j;
          lo = (m div unit) * unit;
          hi = lo + unit
      in if roundMagnitude lo = m \<and> roundMagnitude hi = m then
           (if m - lo < hi - m then lo
            else if hi - m < m - lo then hi
            else if even (m div unit) then lo else hi)
         else if roundMagnitude lo = m then lo
         else if roundMagnitude hi = m then hi
         else shortest m (j - 1))"
  by (cases j) (auto simp: Let_def)

lemma roundMagnitude_1e21: "roundMagnitude (10 ^ 21) = 10 ^ 21"
  using roundMagnitude_multiple [of 7629394531250000 17] by simp

lemma roundMagnitude_2e21: "roundMagnitude (2 * 10 ^ 21) = 2 * 10 ^ 21"
  using roundMagnitude_multiple [of 7629394531250000 18] by simp

lemma isDouble_iff:
  "isDouble n \<longleftrightarrow> roundMagnitude (nat \<bar>n\<bar>) = nat \<bar>n\<bar> \<and> nat \<bar>n\<bar> < 2 ^ 1024"
proof -
  have "int (roundMagnitude (nat \<bar>n\<bar>)) = \<bar>n\<bar> \<longleftrightarrow> roundMagnitude (nat \<bar>n\<bar>) = nat \<bar>n\<bar>"
    by linarith
  then show ?thesis
    unfolding isDouble_def toDouble_def Let_def
    by (cases "n < 0") (auto simp: not_le)
qed

lemma isDouble_1e21: "isDouble (10 ^ 21)" "isDouble (- (10 ^ 21))"
  using roundMagnitude_1e21 by (simp_all add: isDouble_iff)

lemma positiveToString_decimal:
  assumes rnd: "roundMagnitude m = m" and mpos: "0 < m" and mlt: "m < 10 ^ 21"
  shows "\<exists>y. positiveToString m = natToString y \<and> roundMagnitude y = m"
proof -
  let ?d = "digitCount m"
  let ?y = "shortest m (?d - 1)"
  have d21: "?d \<le> 21" using mlt by (rule digitCount_le) simp
  have d1: "0 < ?d" by (simp add: digitCount_def natToString_not_Nil)
  have rb: "roundMagnitude ?y = m" using rnd by (rule shortest_reads_back)
  have "?y \<le> 10 ^ ?d"
    using less_power_digitCount [of m] d1 by (intro shortest_bound) simp_all
  also have "(10::nat) ^ ?d \<le> 10 ^ 21" using d21 by (rule power_increasing) simp
  finally have le: "?y \<le> 10 ^ 21" .
  have "?y \<noteq> 10 ^ 21"
  proof
    assume "?y = 10 ^ 21"
    with rb roundMagnitude_1e21 have "m = 10 ^ 21" by simp
    with mlt show False by simp
  qed
  with le have "?y < 10 ^ 21" by simp
  then have "digitCount ?y \<le> 21" by (rule digitCount_le) simp
  then have "positiveToString m = natToString ?y"
    by (simp add: positiveToString_def Let_def digitCount_def)
  with rb show ?thesis by blast
qed

lemma parseInt_positive:
  assumes rnd: "roundMagnitude m = m" and fin: "m < 2 ^ 1024"
    and mpos: "0 < m" and mlt: "m < 10 ^ 21"
  shows "parseInt (numberToString (Finite (int m))) = Finite (int m)"
    and "parseInt (numberToString (Finite (- int m))) = Finite (- int m)"
proof -
  from positiveToString_decimal [OF rnd mpos mlt]
  obtain y where str: "positiveToString m = natToString y" and rb: "roundMagnitude y = m"
    by blast
  have y0: "0 < y"
  proof (rule ccontr)
    assume "\<not> 0 < y"
    then have "y = 0" by simp
    with rb mpos show False by (simp add: roundMagnitude_small)
  qed
  from fin have fin': "\<not> (2::nat) ^ 1024 \<le> m" by simp
  have p: "toDouble (int y) = Finite (int m)"
    unfolding toDouble_def Let_def using fin' rb by simp
  have n: "toDouble (- int y) = Finite (- int m)"
    unfolding toDouble_def Let_def using fin' rb y0 by simp
  from mpos show "parseInt (numberToString (Finite (int m))) = Finite (int m)"
    by (simp add: numberToString_def str parseInt_natToString p)
  from mpos show "parseInt (numberToString (Finite (- int m))) = Finite (- int m)"
    by (simp add: numberToString_def str parseInt_minus_natToString n)
qed

lemma natToString_0: "natToString 0 = ''0''"
  by (subst natToString.simps) (simp add: char_of_eq_iff)

lemma parseInt_zero: "parseInt (numberToString (Finite 0)) = Finite 0"
proof -
  from parseInt_natToString [of 0] have "parseInt ''0'' = toDouble 0"
    by (simp only: natToString_0 of_nat_0)
  then show ?thesis by (simp add: numberToString_def toDouble_small)
qed

lemma parseInt_numberToString:
  assumes "isDouble n" "\<bar>n\<bar> < 10 ^ 21"
  shows "parseInt (numberToString (Finite n)) = Finite n"
proof -
  consider "n = 0" | m where "n = int m" "0 < m" | m where "n = - int m" "0 < m"
  proof (cases "n = 0"; cases "n < 0")
    assume "n \<noteq> 0" "n < 0"
    then have "n = - int (nat (- n))" "0 < nat (- n)" by simp_all
    then show ?thesis using that(3) by blast
  next
    assume "n \<noteq> 0" "\<not> n < 0"
    then have "n = int (nat n)" "0 < nat n" by simp_all
    then show ?thesis using that(2) by blast
  qed (use that(1) in blast)+
  then show ?thesis
  proof cases
    case 1
    then show ?thesis by (simp only: parseInt_zero)
  next
    case (2 m)
    from assms 2 have "roundMagnitude m = m" "m < 2 ^ 1024" "m < 10 ^ 21"
      by (simp_all add: isDouble_iff)
    with 2 show ?thesis by (simp only: parseInt_positive(1))
  next
    case (3 m)
    from assms 3 have "roundMagnitude m = m" "m < 2 ^ 1024" "m < 10 ^ 21"
      by (simp_all add: isDouble_iff)
    with 3 show ?thesis by (simp only: parseInt_positive(2))
  qed
qed

subsection \<open>Cursors are plain text\<close>

lemma isDigit_ascii: "isDigit c \<Longrightarrow> (of_char c :: nat) < 128"
  by (simp add: isDigit_def)

lemma natToString_ascii: "\<forall>c \<in> set (natToString n). (of_char c :: nat) < 128"
  using natToString_digits by (auto dest: isDigit_ascii)

lemma positiveToString_ascii: "\<forall>c \<in> set (positiveToString m). (of_char c :: nat) < 128"
proof -
  define digits where "digits = natToString (shortest m (digitCount m - 1))"
  define sig where "sig = rev (dropWhile (\<lambda>c. c = CHR ''0'') (rev digits))"
  have dig: "\<forall>c \<in> set digits. (of_char c :: nat) < 128"
    unfolding digits_def by (rule natToString_ascii)
  have "set sig \<subseteq> set digits"
    unfolding sig_def using set_dropWhileD [of _ "\<lambda>c. c = CHR ''0''" "rev digits"] by auto
  with dig have sig: "\<forall>c \<in> set sig. (of_char c :: nat) < 128" by blast
  have ex: "\<forall>c \<in> set (natToString (length digits - 1)). (of_char c :: nat) < 128"
    by (rule natToString_ascii)
  have eq: "positiveToString m =
      (if length digits \<le> 21 then digits
       else (case sig of [] \<Rightarrow> []
             | c # rest \<Rightarrow> c # (if rest = [] then [] else CHR ''.'' # rest) @
                 ''e+'' @ natToString (length digits - 1)))"
    by (simp only: positiveToString_def Let_def digits_def sig_def)
  show ?thesis
  proof (cases sig)
    case Nil
    then show ?thesis using dig by (simp add: eq)
  next
    case (Cons c rest)
    with sig have "(of_char c :: nat) < 128" "\<forall>c \<in> set rest. (of_char c :: nat) < 128"
      by simp_all
    with Cons dig ex show ?thesis by (auto simp: eq)
  qed
qed

lemma numberToString_ascii: "\<forall>c \<in> set (numberToString x). (of_char c :: nat) < 128"
  using positiveToString_ascii by (cases x) (auto simp: numberToString_def)

lemma PREFIX_ascii: "\<forall>c \<in> set PREFIX. (of_char c :: nat) < 128"
  by (simp add: PREFIX_def)

lemma length_PREFIX: "length PREFIX = 18"
  by (simp add: PREFIX_def)

lemma PREFIX_numberToString_ascii:
  "\<forall>c \<in> set (PREFIX @ numberToString x). (of_char c :: nat) < 128"
  using PREFIX_ascii numberToString_ascii by auto

lemma unbase64_offsetToCursor: "unbase64 (offsetToCursor x) = PREFIX @ numberToString x"
  unfolding offsetToCursor_def by (rule unbase64_base64) (rule PREFIX_numberToString_ascii)

lemma cursorToOffset_offsetToCursor:
  "cursorToOffset (offsetToCursor x) = parseInt (numberToString x)"
  by (simp add: cursorToOffset_def unbase64_offsetToCursor)

lemma decode_encode:
  "isDouble n \<Longrightarrow> \<bar>n\<bar> < 10 ^ 21 \<Longrightarrow> cursorToOffset (offsetToCursor (Finite n)) = Finite n"
  by (simp add: cursorToOffset_offsetToCursor parseInt_numberToString)

lemma offset_of_encoded:
  "isDouble n \<Longrightarrow> \<bar>n\<bar> < 10 ^ 21 \<Longrightarrow>
   getOffsetWithDefault (Some (offsetToCursor (Finite n))) d = Finite n"
  by (simp add: getOffsetWithDefault_def decode_encode isNaN_def Let_def)

lemma cursorToOffset_empty: "cursorToOffset [] = NaN"
  by (simp add: cursorToOffset_def unbase64_def base64Decode_def
      sextets_def asciiString_def parseInt_def stripSign_def)

lemma takeWhile_Nil_iff:
  "takeWhile P xs = [] \<longleftrightarrow> (case xs of [] \<Rightarrow> True | x # rest \<Rightarrow> \<not> P x)"
  by (cases xs) simp_all

subsection \<open>Some numbers and their cursors\<close>

lemma numberToString_small:
  "numberToString (Finite 5) = ''5''" "numberToString (Finite 3) = ''3''"
  "numberToString (Finite 34) = ''34''" "numberToString (Finite (- 5)) = ''-5''"
  by (simp_all add: numberToString_def positiveToString_def digitCount_def
      natToString.simps roundMagnitude_small Let_def char_of_eq_iff)

lemma numberToString_1e21:
  "numberToString (Finite (10 ^ 21)) = ''1e+21''"
  "numberToString (Finite (- (10 ^ 21))) = ''-1e+21''"
  using roundMagnitude_1e21 roundMagnitude_2e21
  by (simp_all add: numberToString_def positiveToString_def digitCount_def
      natToString.simps shortest_step Let_def char_of_eq_iff)

lemma base64_literals:
  "base64 ''mongodbconnection:5'' = ''bW9uZ29kYmNvbm5lY3Rpb246NQ==''"
  "base64 ''mongodbconnection:3'' = ''bW9uZ29kYmNvbm5lY3Rpb246Mw==''"
  "base64 ''mongodbconnection:34'' = ''bW9uZ29kYmNvbm5lY3Rpb246MzQ=''"
  "base64 ''mongodbconnection:-5'' = ''bW9uZ29kYmNvbm5lY3Rpb246LTU=''"
  "base64 ''mongodbconnection:1e+21'' = ''bW9uZ29kYmNvbm5lY3Rpb246MWUrMjE=''"
  "base64 ''mongodbconnection:-1e+21'' = ''bW9uZ29kYmNvbm5lY3Rpb246LTFlKzIx''"
  by (simp_all add: base64_def asciiBytes_def b64char_def char_of_eq_iff)

lemma offsetToCursor_literals:
  "offsetToCursor (Finite 5) = ''bW9uZ29kYmNvbm5lY3Rpb246NQ==''"
  "offsetToCursor (Finite 3) = ''bW9uZ29kYmNvbm5lY3Rpb246Mw==''"
  "offsetToCursor (Finite 34) = ''bW9uZ29kYmNvbm5lY3Rpb246MzQ=''"
  "offsetToCursor (Finite (- 5)) = ''bW9uZ29kYmNvbm5lY3Rpb246LTU=''"
  "offsetToCursor (Finite (10 ^ 21)) = ''bW9uZ29kYmNvbm5lY3Rpb246MWUrMjE=''"
  "offsetToCursor (Finite (- (10 ^ 21))) = ''bW9uZ29kYmNvbm5lY3Rpb246LTFlKzIx''"
  by (simp_all only: offsetToCursor_def PREFIX_def numberToString_small numberToString_1e21
      append.simps base64_literals)

lemma parseInt_literals:
  "parseInt ''34'' = Finite 34" "parseInt ''5'' = Finite 5" "parseInt [] = NaN"
  "parseInt ''1e+21'' = Finite 1" "parseInt ''-1e+21'' = Finite (- 1)"
  by (simp_all add: parseInt_def isWhiteSpace_def isDigit_def stripSign_def signOf_def
      digitsValue_def digitValue_def toDouble_small)

lemma unbase64_foreign:
  "unbase64 ''YXJyYXljb25uZWN0aW9uOjEyMzQ='' = ''arrayconnection:1234''"
  by (simp add: unbase64_def base64Decode_def sextets_def unb64_def asciiString_def
      char_of_eq_iff)

lemma unbase64_cursor_5: "unbase64 ''bW9uZ29kYmNvbm5lY3Rpb246NQ=='' = ''mongodbconnection:5''"
  by (simp add: unbase64_def base64Decode_def sextets_def unb64_def asciiString_def
      char_of_eq_iff)

lemma foreign_cursor_not_encoded: "offsetToCursor x \<noteq> ''YXJyYXljb25uZWN0aW9uOjEyMzQ=''"
proof
  assume "offsetToCursor x = ''YXJyYXljb25uZWN0aW9uOjEyMzQ=''"
  then have "unbase64 (offsetToCursor x) = ''arrayconnection:1234''"
    by (simp only: unbase64_foreign)
  then show False
    by (simp add: unbase64_offsetToCursor PREFIX_def)
qed

lemma parseInt_number: "parseInt s = Finite n \<Longrightarrow> isDouble n"
  by (auto simp: parseInt_def Let_def split: if_splits dest: toDouble_isDouble)

lemma toDouble_not_NaN: "toDouble m \<noteq> NaN"
  by (simp add: toDouble_def Let_def)

lemma roundMagnitude_overflow:
  assumes "2 ^ 1024 \<le> m"
  shows "2 ^ 1024 \<le> roundMagnitude m"
proof -
  let ?e = "excessBits m"
  let ?q = "m div 2 ^ ?e"
  from assms have big: "\<not> m < 2 ^ 53" by simp
  then have pos: "0 < ?e" by (simp add: excessBits_big)
  from assms excessBits_upper [of m] have "(2::nat) ^ 1024 < 2 ^ (53 + ?e)" by linarith
  then have "1024 < 53 + ?e" by (rule two_power_less)
  then have "(2::nat) ^ 1024 \<le> 2 ^ (52 + ?e)" by (intro power_increasing) simp_all
  also have "\<dots> = 2 ^ 52 * 2 ^ ?e" by (rule power_add)
  also have "\<dots> \<le> ?q * 2 ^ ?e"
    using quotient_bounds(2) [OF pos] by (rule mult_le_mono1)
  finally have q: "2 ^ 1024 \<le> ?q * 2 ^ ?e" .
  have "?q * 2 ^ ?e \<le> roundMagnitude m"
    by (simp add: roundMagnitude_def Let_def)
  with q show ?thesis by linarith
qed

lemma digitsValue_nines: "digitsValue (replicate k CHR ''9'') + 1 = 10 ^ k"
proof (induction k)
  case 0
  show ?case by (simp add: digitsValue_def)
next
  case (Suc k)
  have "replicate (Suc k) CHR ''9'' = replicate k CHR ''9'' @ [CHR ''9'']"
    by (simp add: replicate_append_same)
  then have "digitsValue (replicate (Suc k) CHR ''9'') =
      10 * digitsValue (replicate k CHR ''9'') + 9"
    by (simp only: digitsValue_snoc) (simp add: digitValue_def)
  with Suc show ?case by simp
qed

lemma parseInt_nines: "parseInt (replicate 309 CHR ''9'') = PosInfinity"
proof -
  have d: "\<forall>c \<in> set (replicate 309 CHR ''9''). isDigit c"
    by (simp add: isDigit_def)
  have ne: "replicate 309 CHR ''9'' \<noteq> []" by simp
  have "2 ^ 1024 \<le> digitsValue (replicate 309 CHR ''9'')"
    using digitsValue_nines [of 309] by simp
  then have "2 ^ 1024 \<le> roundMagnitude (digitsValue (replicate 309 CHR ''9''))"
    by (rule roundMagnitude_overflow)
  then have "toDouble (int (digitsValue (replicate 309 CHR ''9''))) = PosInfinity"
    by (simp add: toDouble_def Let_def)
  with parseInt_digits [OF ne d] show ?thesis by simp
qed

lemma nines_ascii:
  "\<forall>c \<in> set (PREFIX @ replicate 309 CHR ''9''). (of_char c :: nat) < 128"
  using PREFIX_ascii by auto

section \<open>The claims about the codec\<close>

text \<open>
  C5, as it holds. For every non-negative integral number \<open>n\<close> below \<open>10 ^ 21\<close>, decoding
  the cursor that encodes \<open>n\<close> gives \<open>n\<close> back:
  \<open>cursorToOffset(offsetToCursor(n)) == n\<close>.
\<close>

theorem roundtrip_nonnegative:
  "isDouble n \<Longrightarrow> 0 \<le> n \<Longrightarrow> n < 10 ^ 21 \<Longrightarrow>
   cursorToOffset (offsetToCursor (Finite n)) = Finite n"
  by (rule decode_encode) simp_all

theorem roundtrip_nonnegative_witness:
  "isDouble 5 \<and> (0::int) \<le> 5 \<and> (5::int) < 10 ^ 21 \<and>
   offsetToCursor (Finite 5) = ''bW9uZ29kYmNvbm5lY3Rpb246NQ=='' \<and>
   cursorToOffset ''bW9uZ29kYmNvbm5lY3Rpb246NQ=='' = Finite 5"
proof -
  have d: "isDouble 5" by (simp add: isDouble_small)
  from roundtrip_nonnegative [OF d]
  have "cursorToOffset (offsetToCursor (Finite 5)) = Finite 5" by simp
  then show ?thesis by (simp add: d offsetToCursor_literals)
qed

text \<open>
  C5 as stated fails. The number \<open>10 ^ 21\<close> is printed in exponent form, as \<open>1e+21\<close>,
  and the cursor made of it decodes to 1.
\<close>

theorem roundtrip_fails_at_1e21:
  "isDouble (10 ^ 21) \<and>
   offsetToCursor (Finite (10 ^ 21)) = ''bW9uZ29kYmNvbm5lY3Rpb246MWUrMjE='' \<and>
   cursorToOffset ''bW9uZ29kYmNvbm5lY3Rpb246MWUrMjE='' = Finite 1 \<and>
   cursorToOffset (offsetToCursor (Finite (10 ^ 21))) \<noteq> Finite (10 ^ 21)"
proof -
  have a: "isDouble (10 ^ 21)" by (rule isDouble_1e21(1))
  have b: "offsetToCursor (Finite (10 ^ 21)) = ''bW9uZ29kYmNvbm5lY3Rpb246MWUrMjE=''"
    by (rule offsetToCursor_literals(5))
  have c0: "cursorToOffset (offsetToCursor (Finite (10 ^ 21))) = Finite 1"
    by (simp only: cursorToOffset_offsetToCursor numberToString_1e21 parseInt_literals)
  then have c: "cursorToOffset ''bW9uZ29kYmNvbm5lY3Rpb246MWUrMjE='' = Finite 1"
    by (simp only: b)
  have d: "cursorToOffset (offsetToCursor (Finite (10 ^ 21))) \<noteq> Finite (10 ^ 21)"
    unfolding c0 by simp
  show ?thesis by (intro conjI a b c d)
qed

text \<open>
  C7. \<open>getOffsetWithDefault(cursor, defaultOffset)\<close> returns the default when the cursor
  is absent; for a given cursor it returns the default again when decoding yields the
  not-a-number sentinel, and the decoded number otherwise.
\<close>

theorem getOffsetWithDefault_cases:
  "getOffsetWithDefault None d = d \<and>
   (cursorToOffset c = NaN \<longrightarrow> getOffsetWithDefault (Some c) d = d) \<and>
   (cursorToOffset c \<noteq> NaN \<longrightarrow> getOffsetWithDefault (Some c) d = cursorToOffset c)"
  by (simp add: getOffsetWithDefault_def isNaN_def Let_def)

theorem getOffsetWithDefault_cases_witness:
  "getOffsetWithDefault None (Finite 10) = Finite 10 \<and>
   cursorToOffset [] = NaN \<and> getOffsetWithDefault (Some []) (Finite 10) = Finite 10 \<and>
   cursorToOffset ''bW9uZ29kYmNvbm5lY3Rpb246NQ=='' = Finite 5 \<and>
   getOffsetWithDefault (Some ''bW9uZ29kYmNvbm5lY3Rpb246NQ=='') (Finite 10) = Finite 5"
proof -
  have a: "cursorToOffset [] = NaN" by (rule cursorToOffset_empty)
  have b: "cursorToOffset ''bW9uZ29kYmNvbm5lY3Rpb246NQ=='' = Finite 5"
    by (simp add: cursorToOffset_def unbase64_cursor_5 PREFIX_def parseInt_literals)
  show ?thesis
    using getOffsetWithDefault_cases [of "Finite 10" "[]"]
      getOffsetWithDefault_cases [of "Finite 10" "''bW9uZ29kYmNvbm5lY3Rpb246NQ==''"] a b
    by simp
qed

text \<open>
  C9, as it holds. For every string \<open>cursorToOffset\<close> returns a number that is not a
  number, an infinity or an integral double. The first 18 characters of the decoded text
  are dropped without being compared with the prefix, and the sentinel results exactly
  when what follows them does not begin, after optional white space and one optional
  sign, with a decimal digit.
\<close>

theorem cursorToOffset_sentinel_iff:
  "(cursorToOffset c = NaN \<longleftrightarrow>
     (case stripSign (dropWhile isWhiteSpace (drop 18 (unbase64 c))) of
        [] \<Rightarrow> True
      | x # rest \<Rightarrow> \<not> isDigit x)) \<and>
   (\<forall>n. cursorToOffset c = Finite n \<longrightarrow> isDouble n)"
  by (auto simp: cursorToOffset_def parseInt_def Let_def length_PREFIX takeWhile_Nil_iff
      toDouble_not_NaN dest: toDouble_isDouble split: if_splits)

theorem cursorToOffset_sentinel_iff_witness:
  "cursorToOffset [] = NaN \<and>
   stripSign (dropWhile isWhiteSpace (drop 18 (unbase64 []))) = [] \<and>
   cursorToOffset ''YXJyYXljb25uZWN0aW9uOjEyMzQ='' = Finite 34 \<and>
   stripSign (dropWhile isWhiteSpace (drop 18 (unbase64 ''YXJyYXljb25uZWN0aW9uOjEyMzQ=''))) =
     ''34'' \<and> isDigit CHR ''3'' \<and> isDouble 34"
proof -
  have r1: "stripSign (dropWhile isWhiteSpace (drop 18 (unbase64 []))) = []"
    by (simp add: unbase64_def base64Decode_def sextets_def asciiString_def stripSign_def)
  have r2: "stripSign (dropWhile isWhiteSpace
      (drop 18 (unbase64 ''YXJyYXljb25uZWN0aW9uOjEyMzQ=''))) = ''34''"
    by (simp add: unbase64_foreign isWhiteSpace_def stripSign_def)
  have d: "isDigit CHR ''3''" by (simp add: isDigit_def)
  have v: "cursorToOffset ''YXJyYXljb25uZWN0aW9uOjEyMzQ='' = Finite 34"
    by (simp add: cursorToOffset_def unbase64_foreign PREFIX_def parseInt_literals)
  from cursorToOffset_sentinel_iff [of "[]"]
  have a: "cursorToOffset [] = NaN" by (simp add: r1)
  from cursorToOffset_sentinel_iff [of "''YXJyYXljb25uZWN0aW9uOjEyMzQ=''"] v
  have b: "isDouble 34" by blast
  show ?thesis by (intro conjI a r1 v r2 d b)
qed

text \<open>
  C9 as stated fails. The cursor that another library issues for offset 1234, the
  encoding of \<open>arrayconnection:1234\<close>, is no cursor of \<open>offsetToCursor\<close> (by the round
  trip only the cursor of 34 could be it; \<open>foreign_cursor_not_encoded\<close> excludes every
  number), yet it decodes to the integer 34 and not to the sentinel. And a cursor whose
  text after the prefix is a run of 309 digits decodes to infinity, which is neither an
  integer nor the sentinel.
\<close>

theorem foreign_cursor_decodes:
  "cursorToOffset ''YXJyYXljb25uZWN0aW9uOjEyMzQ='' = Finite 34 \<and>
   ''YXJyYXljb25uZWN0aW9uOjEyMzQ='' \<noteq> offsetToCursor (Finite 34) \<and>
   cursorToOffset (base64 (PREFIX @ replicate 309 CHR ''9'')) = PosInfinity"
proof -
  have "unbase64 (base64 (PREFIX @ replicate 309 CHR ''9'')) = PREFIX @ replicate 309 CHR ''9''"
    using nines_ascii by (rule unbase64_base64)
  then have "cursorToOffset (base64 (PREFIX @ replicate 309 CHR ''9'')) = PosInfinity"
    by (simp add: cursorToOffset_def parseInt_nines)
  then show ?thesis
    by (simp add: cursorToOffset_def unbase64_foreign PREFIX_def parseInt_literals
        offsetToCursor_literals)
qed

text \<open>
  C10, as it holds. The round trip holds for every integral number of magnitude below
  \<open>10 ^ 21\<close>, the negative ones included, so a cursor that encodes such a negative
  offset is taken as that offset and not replaced by the default.
\<close>

theorem roundtrip_every_integer:
  "isDouble n \<Longrightarrow> \<bar>n\<bar> < 10 ^ 21 \<Longrightarrow>
   cursorToOffset (offsetToCursor (Finite n)) = Finite n \<and>
   getOffsetWithDefault (Some (offsetToCursor (Finite n))) d = Finite n"
  by (simp add: decode_encode offset_of_encoded)

theorem roundtrip_every_integer_witness:
  "isDouble (- 5) \<and> \<bar>- 5 :: int\<bar> < 10 ^ 21 \<and>
   offsetToCursor (Finite (- 5)) = ''bW9uZ29kYmNvbm5lY3Rpb246LTU='' \<and>
   cursorToOffset ''bW9uZ29kYmNvbm5lY3Rpb246LTU='' = Finite (- 5) \<and>
   getOffsetWithDefault (Some ''bW9uZ29kYmNvbm5lY3Rpb246LTU='') (Finite 10) = Finite (- 5)"
proof -
  have d: "isDouble (- 5)" by (simp add: isDouble_small)
  have b: "\<bar>- 5 :: int\<bar> < 10 ^ 21" by simp
  from roundtrip_every_integer [OF d b, of "Finite 10"] d show ?thesis
    by (simp add: offsetToCursor_literals)
qed

text \<open>
  C10 as stated fails. The number \<open>- (10 ^ 21)\<close> is printed as \<open>-1e+21\<close>; the cursor
  made of it decodes to \<open>- 1\<close>, and that is the offset taken.
\<close>

theorem roundtrip_fails_at_minus_1e21:
  "isDouble (- (10 ^ 21)) \<and>
   offsetToCursor (Finite (- (10 ^ 21))) = ''bW9uZ29kYmNvbm5lY3Rpb246LTFlKzIx'' \<and>
   cursorToOffset ''bW9uZ29kYmNvbm5lY3Rpb246LTFlKzIx'' = Finite (- 1) \<and>
   getOffsetWithDefault (Some ''bW9uZ29kYmNvbm5lY3Rpb246LTFlKzIx'') (Finite 10) = Finite (- 1)"
proof -
  have a: "isDouble (- (10 ^ 21))" by (rule isDouble_1e21(2))
  have b: "offsetToCursor (Finite (- (10 ^ 21))) = ''bW9uZ29kYmNvbm5lY3Rpb246LTFlKzIx''"
    by (rule offsetToCursor_literals(6))
  have "cursorToOffset (offsetToCursor (Finite (- (10 ^ 21)))) = Finite (- 1)"
    by (simp only: cursorToOffset_offsetToCursor numberToString_1e21 parseInt_literals)
  then have c: "cursorToOffset ''bW9uZ29kYmNvbm5lY3Rpb246LTFlKzIx'' = Finite (- 1)"
    by (simp only: b)
  have d: "getOffsetWithDefault (Some ''bW9uZ29kYmNvbm5lY3Rpb246LTFlKzIx'') (Finite 10) =
      Finite (- 1)"
    by (simp add: getOffsetWithDefault_def c isNaN_def Let_def)
  show ?thesis by (intro conjI a b c d)
qed

section \<open>Properties of the builders\<close>

subsection \<open>Arithmetic on small numbers\<close>

lemma plus_small: "\<bar>a + b\<bar> < 2 ^ 53 \<Longrightarrow> Finite a + Finite b = Finite (a + b)"
  by (simp add: toDouble_small)

lemma minus_small: "\<bar>a - b\<bar> < 2 ^ 53 \<Longrightarrow> Finite a - Finite b = Finite (a - b)"
  by (simp add: minus_number_def toDouble_small)

lemma Math_min_same: "Math_min x x = x"
  by (cases x) simp_all

lemma Math_min_commute: "Math_min x y = Math_min y x"
  by (cases x; cases y) (simp_all add: min.commute)

lemma less_number_irrefl: "\<not> (x :: number) < x"
  by (cases x) simp_all

subsection \<open>Mapping with the index\<close>

lemma length_mapFrom: "length (mapFrom k f xs) = length xs"
  by (induction xs arbitrary: k) simp_all

lemma nth_mapFrom: "i < length xs \<Longrightarrow> mapFrom k f xs ! i = f (xs ! i) (k + i)"
proof (induction xs arbitrary: k i)
  case Nil
  then show ?case by simp
next
  case (Cons x xs)
  show ?case
  proof (cases i)
    case 0
    then show ?thesis by simp
  next
    case (Suc j)
    with Cons.prems have "j < length xs" by simp
    from Cons.IH [OF this, of "Suc k"] Suc show ?thesis by simp
  qed
qed

lemma length_arrayMap: "length (arrayMap f xs) = length xs"
  by (simp add: arrayMap_def length_mapFrom)

lemma nth_arrayMap: "i < length xs \<Longrightarrow> arrayMap f xs ! i = f (xs ! i) i xs"
  by (simp add: arrayMap_def nth_mapFrom)

lemma edges_assemble:
  "edges (assemble w args mapper fetched) =
   arrayMap (\<lambda>value index array.
       \<lparr>cursor = offsetToCursor (startOffset w + Finite (int index)), node = value\<rparr>)
     (case mapper of None \<Rightarrow> fetched | Some f \<Rightarrow> arrayMap f fetched)"
  by (simp add: assemble_def Let_def)

subsection \<open>Cursors used as conditions\<close>

lemma getOffsetWithDefault_empty: "getOffsetWithDefault (Some []) d = d"
  by (simp add: getOffsetWithDefault_def cursorToOffset_empty isNaN_def)

lemma lowerBound_present:
  "(if truthy a then getOffsetWithDefault a (Finite (- 1)) + Finite 1 else Finite 0) =
   (if a \<noteq> None then getOffsetWithDefault a (Finite (- 1)) + Finite 1 else Finite 0)"
proof (cases a)
  case None
  then show ?thesis by (simp add: truthy_def)
next
  case (Some str)
  then show ?thesis
    by (cases "str = []")
      (simp_all add: truthy_def getOffsetWithDefault_empty toDouble_small)
qed

lemma upperBound_present:
  "(if truthy b then Math_min (getOffsetWithDefault b n) n else n) =
   (if b \<noteq> None then Math_min (getOffsetWithDefault b n) n else n)"
proof (cases b)
  case None
  then show ?thesis by (simp add: truthy_def)
next
  case (Some str)
  then show ?thesis
    by (cases "str = []")
      (simp_all add: truthy_def getOffsetWithDefault_empty Math_min_same)
qed

subsection \<open>The caller's object under the duplicating builders\<close>

lemma cursor_builder_frame:
  "p < length h \<Longrightarrow> store (connectionFromMongoCursor ops h p args mapper) ! p = h ! p"
  by (simp add: connectionFromMongoCursor_def Let_def nth_append)

lemma aggregate_builder_frame:
  "p < length h \<Longrightarrow> store (connectionFromMongooseAggregate ops h p args mapper) ! p = h ! p"
  by (simp add: connectionFromMongooseAggregate_def Let_def nth_append)

subsection \<open>What each builder hands to the shared assembly\<close>

lemma builders_assemble:
  "connection (connectionFromMongoCursor ops h p args mapper) =
     (let w = cursorWindow (countOp ops (cloneOp ops (h ! p))) args
      in assemble w args mapper
        (if limit w = Finite 0 then []
         else fetchOp ops (limitOp ops (limit w) (skipOp ops (skip w) (cloneOp ops (h ! p))))))"
  "connection (connectionFromMongooseQuery ops h p args mapper) =
     (let w = queryWindow (countOp ops (h ! p)) args
      in assemble w args mapper
        (if limit w = Finite 0 then []
         else fetchOp ops
           (h[p := skipOp ops (skip w) (h ! p),
              p := limitOp ops (limit w) (h[p := skipOp ops (skip w) (h ! p)] ! p)] ! p)))"
  by (simp_all add: connectionFromMongoCursor_def connectionFromMongooseQuery_def Let_def)

subsection \<open>The page flag when \<open>first\<close> is not supplied\<close>

lemma upperBound_value:
  "upperBound (cursorWindow n args) = Math_min n (getOffsetWithDefault (beforeArg args) n)"
  "upperBound (queryWindow n args) = Math_min n (getOffsetWithDefault (beforeArg args) n)"
proof -
  have "(if truthy (beforeArg args)
         then Math_min (getOffsetWithDefault (beforeArg args) n) n else n) =
      Math_min n (getOffsetWithDefault (beforeArg args) n)"
    unfolding upperBound_present
    by (cases "beforeArg args")
      (simp_all add: getOffsetWithDefault_def Math_min_same Math_min_commute)
  then show
    "upperBound (cursorWindow n args) = Math_min n (getOffsetWithDefault (beforeArg args) n)"
    and
    "upperBound (queryWindow n args) = Math_min n (getOffsetWithDefault (beforeArg args) n)"
    by (simp_all add: cursorWindow_def queryWindow_def Let_def)
qed

lemma next_page_flag:
  assumes "first args = Undefined"
  shows "hasNextPage (pageInfo (assemble (cursorWindow n args) args mapper fetched)) = False"
    and "hasNextPage (pageInfo (assemble (queryWindow n args) args mapper fetched)) = False"
proof -
  have "endOffset (cursorWindow n args) = Math_min n (getOffsetWithDefault (beforeArg args) n)"
    and "endOffset (queryWindow n args) = Math_min n (getOffsetWithDefault (beforeArg args) n)"
    using assms by (simp_all add: cursorWindow_def queryWindow_def Let_def)
  then show "hasNextPage (pageInfo (assemble (cursorWindow n args) args mapper fetched)) = False"
    and "hasNextPage (pageInfo (assemble (queryWindow n args) args mapper fetched)) = False"
    by (simp_all add: assemble_def Let_def upperBound_value less_number_irrefl)
qed

subsection \<open>Windows at given cursors\<close>

lemma getOffsetWithDefault_literals:
  "getOffsetWithDefault (Some ''bW9uZ29kYmNvbm5lY3Rpb246LTU='') d = Finite (- 5)"
  "getOffsetWithDefault (Some ''bW9uZ29kYmNvbm5lY3Rpb246NQ=='') d = Finite 5"
  "getOffsetWithDefault (Some ''bW9uZ29kYmNvbm5lY3Rpb246Mw=='') d = Finite 3"
proof -
  have "isDouble (- 5)" "isDouble 5" "isDouble 3" by (simp_all add: isDouble_small)
  then have
    "getOffsetWithDefault (Some (offsetToCursor (Finite (- 5)))) d = Finite (- 5)"
    "getOffsetWithDefault (Some (offsetToCursor (Finite 5))) d = Finite 5"
    "getOffsetWithDefault (Some (offsetToCursor (Finite 3))) d = Finite 3"
    by (simp_all add: offset_of_encoded)
  then show
    "getOffsetWithDefault (Some ''bW9uZ29kYmNvbm5lY3Rpb246LTU='') d = Finite (- 5)"
    "getOffsetWithDefault (Some ''bW9uZ29kYmNvbm5lY3Rpb246NQ=='') d = Finite 5"
    "getOffsetWithDefault (Some ''bW9uZ29kYmNvbm5lY3Rpb246Mw=='') d = Finite 3"
    by (simp_all only: offsetToCursor_literals)
qed

subsection \<open>The page flag when \<open>last\<close> is not supplied\<close>

lemma roundMagnitude_pos: "0 < m \<Longrightarrow> 0 < roundMagnitude m"
proof (cases "m < 2 ^ 53")
  case True
  assume "0 < m"
  with True show ?thesis by (simp add: roundMagnitude_small)
next
  case False
  then have "0 < excessBits m" by (simp add: excessBits_big)
  from quotient_bounds(2) [OF this] have "0 < m div 2 ^ excessBits m" by simp
  then have "0 < m div 2 ^ excessBits m * 2 ^ excessBits m" by simp
  moreover have "m div 2 ^ excessBits m * 2 ^ excessBits m \<le> roundMagnitude m"
    by (simp add: roundMagnitude_def Let_def)
  ultimately show ?thesis by linarith
qed

lemma toDouble_negative: "k < 0 \<Longrightarrow> toDouble k < Finite 0"
  using roundMagnitude_pos [of "nat \<bar>k\<bar>"] by (simp add: toDouble_def Let_def)

lemma getOffsetWithDefault_not_NaN: "d \<noteq> NaN \<Longrightarrow> getOffsetWithDefault c d \<noteq> NaN"
  by (cases c) (simp_all add: getOffsetWithDefault_def isNaN_def Let_def)

lemma previous_page_flag:
  assumes "lastArg args = Undefined"
  shows "hasPreviousPage (pageInfo (assemble (cursorWindow n args) args mapper fetched)) =
     (getOffsetWithDefault (after args) (Finite (- 1)) < Finite (- 1))"
proof -
  let ?a = "getOffsetWithDefault (after args) (Finite (- 1))"
  have l: "lowerBound (cursorWindow n args) = ?a + Finite 1"
  proof -
    have "(if truthy (after args) then ?a + Finite 1 else Finite 0) = ?a + Finite 1"
      unfolding lowerBound_present
      by (cases "after args") (simp_all add: getOffsetWithDefault_def toDouble_small)
    then show ?thesis by (simp add: cursorWindow_def Let_def)
  qed
  have s: "startOffset (cursorWindow n args) = Math_max (Finite (- 1)) ?a + Finite 1"
    using assms by (simp add: cursorWindow_def Let_def)
  have nn: "?a \<noteq> NaN" by (rule getOffsetWithDefault_not_NaN) simp
  have "(?a + Finite 1 < Math_max (Finite (- 1)) ?a + Finite 1) = (?a < Finite (- 1))"
  proof (cases ?a)
    case NaN
    with nn show ?thesis by simp
  next
    case (Finite k)
    show ?thesis
    proof (cases "k < - 1")
      case True
      then have "max (- 1) k = - 1" by simp
      with True toDouble_negative [of "k + 1"] show ?thesis
        by (simp add: Finite toDouble_small)
    next
      case False
      then have "max (- 1) k = k" by simp
      with False show ?thesis by (simp add: Finite less_number_irrefl)
    qed
  next
    case PosInfinity
    then show ?thesis by simp
  next
    case NegInfinity
    then show ?thesis by (simp add: toDouble_small)
  qed
  with assms show ?thesis by (simp add: assemble_def Let_def l s)
qed

section \<open>The claims about the window and the builders\<close>

text \<open>
  C1. For every total count and every arguments, the window that
  \<open>connectionFromMongoCursor\<close> computes has the before and after offsets, the start and end
  offsets, the skip and the lower and upper bounds that the specification's Resolver
  gives.
\<close>

theorem cursorWindow_as_specified:
  "beforeOffset (cursorWindow totalCount args) =
     beforeOffset (Resolver totalCount (after args) (beforeArg args)
       (supplied (first args)) (supplied (lastArg args))) \<and>
   afterOffset (cursorWindow totalCount args) =
     afterOffset (Resolver totalCount (after args) (beforeArg args)
       (supplied (first args)) (supplied (lastArg args))) \<and>
   startOffset (cursorWindow totalCount args) =
     startOffset (Resolver totalCount (after args) (beforeArg args)
       (supplied (first args)) (supplied (lastArg args))) \<and>
   endOffset (cursorWindow totalCount args) =
     endOffset (Resolver totalCount (after args) (beforeArg args)
       (supplied (first args)) (supplied (lastArg args))) \<and>
   skip (cursorWindow totalCount args) =
     skip (Resolver totalCount (after args) (beforeArg args)
       (supplied (first args)) (supplied (lastArg args))) \<and>
   lowerBound (cursorWindow totalCount args) =
     lowerBound (Resolver totalCount (after args) (beforeArg args)
       (supplied (first args)) (supplied (lastArg args))) \<and>
   upperBound (cursorWindow totalCount args) =
     upperBound (Resolver totalCount (after args) (beforeArg args)
       (supplied (first args)) (supplied (lastArg args)))"
proof -
  have e: "endOffset (cursorWindow totalCount args) =
     endOffset (Resolver totalCount (after args) (beforeArg args)
       (supplied (first args)) (supplied (lastArg args)))"
    by (cases "first args") (simp_all add: cursorWindow_def Resolver_def supplied_def Let_def)
  have s: "startOffset (cursorWindow totalCount args) =
     startOffset (Resolver totalCount (after args) (beforeArg args)
       (supplied (first args)) (supplied (lastArg args)))"
    by (cases "first args"; cases "lastArg args")
      (simp_all add: cursorWindow_def Resolver_def supplied_def Let_def)
  have k: "skip (cursorWindow totalCount args) =
     skip (Resolver totalCount (after args) (beforeArg args)
       (supplied (first args)) (supplied (lastArg args)))"
    by (cases "first args"; cases "lastArg args")
      (simp_all add: cursorWindow_def Resolver_def supplied_def Let_def)
  have l: "lowerBound (cursorWindow totalCount args) =
     lowerBound (Resolver totalCount (after args) (beforeArg args)
       (supplied (first args)) (supplied (lastArg args)))"
    using lowerBound_present [of "after args"]
    by (simp add: cursorWindow_def Resolver_def Let_def)
  have u: "upperBound (cursorWindow totalCount args) =
     upperBound (Resolver totalCount (after args) (beforeArg args)
       (supplied (first args)) (supplied (lastArg args)))"
    using upperBound_present [of "beforeArg args" totalCount]
    by (simp add: cursorWindow_def Resolver_def Let_def)
  show ?thesis
    by (intro conjI e s k l u) (simp_all add: cursorWindow_def Resolver_def Let_def)
qed

text \<open>
  C8. For every fetched slice and optional mapper there is one edge for each record, in
  fetch order, and the edge at index \<open>i\<close> holds the cursor of \<open>startOffset + i\<close> and, as
  its node, record \<open>i\<close> itself or what the mapper returns for record \<open>i\<close> (called with the
  record, its index and the slice).
\<close>

theorem edges_of_slice:
  "length (edges (assemble w args mapper fetched)) = length fetched \<and>
   (\<forall>i. i < length fetched \<longrightarrow>
      edges (assemble w args mapper fetched) ! i =
        \<lparr>cursor = offsetToCursor (startOffset w + Finite (int i)),
         node = (case mapper of None \<Rightarrow> fetched ! i | Some f \<Rightarrow> f (fetched ! i) i fetched)\<rparr>)"
  by (cases mapper) (simp_all add: edges_assemble length_arrayMap nth_arrayMap)

theorem edges_of_slice_witness:
  "(1::nat) < length [10, 20 :: int] \<and>
   length (edges (assemble (cursorWindow (Finite 10) noArgs) noArgs
     (Some (\<lambda>value index array. 2 * value)) [10, 20 :: int])) = 2 \<and>
   edges (assemble (cursorWindow (Finite 10) noArgs) noArgs
     (Some (\<lambda>value index array. 2 * value)) [10, 20 :: int]) ! 1 =
     \<lparr>cursor = offsetToCursor (startOffset (cursorWindow (Finite 10) noArgs) + Finite 1),
      node = 40\<rparr>"
  using edges_of_slice [of "cursorWindow (Finite 10) noArgs" noArgs
      "Some (\<lambda>value index array. 2 * value)" "[10, 20 :: int]"]
  by simp

text \<open>
  C2 fails on the code. With ten documents and \<open>last = 3\<close> the cursor builder returns the
  documents at offsets 7 to 9, while the query and aggregation builders, which take the
  minimum where the cursor builder takes the maximum, start at offset 0 and return all
  ten.
\<close>

theorem last_three_differs:
  "map node (edges (connection
     (connectionFromMongoCursor listOps [tenDocs] 0 (noArgs\<lparr>lastArg := Num (Finite 3)\<rparr>) None))) =
     [7, 8, 9] \<and>
   map node (edges (connection
     (connectionFromMongooseQuery listOps [tenDocs] 0 (noArgs\<lparr>lastArg := Num (Finite 3)\<rparr>) None))) =
     [0, 1, 2, 3, 4, 5, 6, 7, 8, 9] \<and>
   map node (edges (connection
     (connectionFromMongooseAggregate listOps [tenDocs] 0 (noArgs\<lparr>lastArg := Num (Finite 3)\<rparr>) None))) =
     [0, 1, 2, 3, 4, 5, 6, 7, 8, 9] \<and>
   startOffset (cursorWindow (Finite 10) (noArgs\<lparr>lastArg := Num (Finite 3)\<rparr>)) = Finite 7 \<and>
   startOffset (queryWindow (Finite 10) (noArgs\<lparr>lastArg := Num (Finite 3)\<rparr>)) = Finite 0"
  by (simp add: connectionFromMongoCursor_def connectionFromMongooseQuery_def
      connectionFromMongooseAggregate_def cursorWindow_def queryWindow_def
      getOffsetWithDefault_def truthy_def edges_assemble arrayMap_def
      listOps_def tenDocs_def noArgs_def Let_def toDouble_small minus_number_def)

text \<open>
  C3, as it holds. When the window is exactly empty, that is when the limit
  \<open>endOffset - startOffset\<close> is 0, each builder returns no edge and makes no fetch call.
\<close>

theorem empty_window_no_fetch:
  "(limit (cursorWindow (countOp ops (cloneOp ops (h ! p))) args) = Finite 0 \<longrightarrow>
      edges (connection (connectionFromMongoCursor ops h p args mapper)) = [] \<and>
      calls (connectionFromMongoCursor ops h p args mapper) =
        [Clone p, Count (length h),
         Skip (length h) (skip (cursorWindow (countOp ops (cloneOp ops (h ! p))) args)),
         Limit (length h) (Finite 0)]) \<and>
   (limit (queryWindow (countOp ops (h ! p)) args) = Finite 0 \<longrightarrow>
      edges (connection (connectionFromMongooseQuery ops h p args mapper)) = [] \<and>
      calls (connectionFromMongooseQuery ops h p args mapper) =
        [Count p, Skip p (skip (queryWindow (countOp ops (h ! p)) args)), Limit p (Finite 0)]) \<and>
   (p < length h \<and>
    limit (queryWindow
      (case snd (groupOp ops (cloneOp ops (h ! p))) of
         [] \<Rightarrow> Finite 0
       | c # rest \<Rightarrow> if c \<noteq> Finite 0 \<and> c \<noteq> NaN then c else Finite 0) args) = Finite 0 \<longrightarrow>
      edges (connection (connectionFromMongooseAggregate ops h p args mapper)) = [] \<and>
      calls (connectionFromMongooseAggregate ops h p args mapper) =
        [Clone p, Clone p, Group (Suc (length h)),
         Skip (length h) (skip (queryWindow
           (case snd (groupOp ops (cloneOp ops (h ! p))) of
              [] \<Rightarrow> Finite 0
       | c # rest \<Rightarrow> if c \<noteq> Finite 0 \<and> c \<noteq> NaN then c else Finite 0) args)),
         Limit (length h) (Finite 0)])"
proof (intro conjI impI)
  assume "limit (cursorWindow (countOp ops (cloneOp ops (h ! p))) args) = Finite 0"
  then show "edges (connection (connectionFromMongoCursor ops h p args mapper)) = []"
    by (cases mapper)
      (simp_all add: connectionFromMongoCursor_def edges_assemble arrayMap_def Let_def)
next
  assume "limit (cursorWindow (countOp ops (cloneOp ops (h ! p))) args) = Finite 0"
  then show "calls (connectionFromMongoCursor ops h p args mapper) =
        [Clone p, Count (length h),
         Skip (length h) (skip (cursorWindow (countOp ops (cloneOp ops (h ! p))) args)),
         Limit (length h) (Finite 0)]"
    by (simp add: connectionFromMongoCursor_def Let_def)
next
  assume "limit (queryWindow (countOp ops (h ! p)) args) = Finite 0"
  then show "edges (connection (connectionFromMongooseQuery ops h p args mapper)) = []"
    by (cases mapper)
      (simp_all add: connectionFromMongooseQuery_def edges_assemble arrayMap_def Let_def)
next
  assume "limit (queryWindow (countOp ops (h ! p)) args) = Finite 0"
  then show "calls (connectionFromMongooseQuery ops h p args mapper) =
        [Count p, Skip p (skip (queryWindow (countOp ops (h ! p)) args)), Limit p (Finite 0)]"
    by (simp add: connectionFromMongooseQuery_def Let_def)
next
  assume a: "p < length h \<and>
    limit (queryWindow
      (case snd (groupOp ops (cloneOp ops (h ! p))) of
         [] \<Rightarrow> Finite 0
       | c # rest \<Rightarrow> if c \<noteq> Finite 0 \<and> c \<noteq> NaN then c else Finite 0) args) = Finite 0"
  then show "edges (connection (connectionFromMongooseAggregate ops h p args mapper)) = []"
    by (cases mapper)
      (simp_all add: connectionFromMongooseAggregate_def edges_assemble arrayMap_def
        Let_def nth_append)
next
  assume a: "p < length h \<and>
    limit (queryWindow
      (case snd (groupOp ops (cloneOp ops (h ! p))) of
         [] \<Rightarrow> Finite 0
       | c # rest \<Rightarrow> if c \<noteq> Finite 0 \<and> c \<noteq> NaN then c else Finite 0) args) = Finite 0"
  then show "calls (connectionFromMongooseAggregate ops h p args mapper) =
        [Clone p, Clone p, Group (Suc (length h)),
         Skip (length h) (skip (queryWindow
           (case snd (groupOp ops (cloneOp ops (h ! p))) of
              [] \<Rightarrow> Finite 0
       | c # rest \<Rightarrow> if c \<noteq> Finite 0 \<and> c \<noteq> NaN then c else Finite 0) args)),
         Limit (length h) (Finite 0)]"
    by (simp add: connectionFromMongooseAggregate_def Let_def nth_append)
qed

theorem empty_window_no_fetch_witness:
  "limit (cursorWindow (countOp listOps (cloneOp listOps ([tenDocs] ! 0)))
     (noArgs\<lparr>first := Num (Finite 0)\<rparr>)) = Finite 0 \<and>
   edges (connection (connectionFromMongoCursor listOps [tenDocs] 0
     (noArgs\<lparr>first := Num (Finite 0)\<rparr>) None)) = [] \<and>
   calls (connectionFromMongoCursor listOps [tenDocs] 0 (noArgs\<lparr>first := Num (Finite 0)\<rparr>) None) =
     [Clone 0, Count 1, Skip 1 (Finite 0), Limit 1 (Finite 0)] \<and>
   limit (queryWindow (countOp listOps ([tenDocs] ! 0)) (noArgs\<lparr>first := Num (Finite 0)\<rparr>)) = Finite 0 \<and>
   edges (connection (connectionFromMongooseQuery listOps [tenDocs] 0
     (noArgs\<lparr>first := Num (Finite 0)\<rparr>) None)) = [] \<and>
   calls (connectionFromMongooseQuery listOps [tenDocs] 0 (noArgs\<lparr>first := Num (Finite 0)\<rparr>) None) =
     [Count 0, Skip 0 (Finite 0), Limit 0 (Finite 0)] \<and>
   (0::nat) < length [tenDocs] \<and>
   limit (queryWindow
     (case snd (groupOp listOps (cloneOp listOps ([tenDocs] ! 0))) of
        [] \<Rightarrow> Finite 0
       | c # rest \<Rightarrow> if c \<noteq> Finite 0 \<and> c \<noteq> NaN then c else Finite 0) (noArgs\<lparr>first := Num (Finite 0)\<rparr>)) = Finite 0 \<and>
   edges (connection (connectionFromMongooseAggregate listOps [tenDocs] 0
     (noArgs\<lparr>first := Num (Finite 0)\<rparr>) None)) = [] \<and>
   calls (connectionFromMongooseAggregate listOps [tenDocs] 0 (noArgs\<lparr>first := Num (Finite 0)\<rparr>) None) =
     [Clone 0, Clone 0, Group 2, Skip 1 (Finite 0), Limit 1 (Finite 0)]"
proof -
  have c: "limit (cursorWindow (countOp listOps (cloneOp listOps ([tenDocs] ! 0)))
      (noArgs\<lparr>first := Num (Finite 0)\<rparr>)) = Finite 0"
    and ck: "skip (cursorWindow (countOp listOps (cloneOp listOps ([tenDocs] ! 0)))
      (noArgs\<lparr>first := Num (Finite 0)\<rparr>)) = Finite 0"
    and q: "limit (queryWindow (countOp listOps ([tenDocs] ! 0)) (noArgs\<lparr>first := Num (Finite 0)\<rparr>)) = Finite 0"
    and qk: "skip (queryWindow (countOp listOps ([tenDocs] ! 0)) (noArgs\<lparr>first := Num (Finite 0)\<rparr>)) = Finite 0"
    and g: "limit (queryWindow
       (case snd (groupOp listOps (cloneOp listOps ([tenDocs] ! 0))) of
          [] \<Rightarrow> Finite 0
       | c # rest \<Rightarrow> if c \<noteq> Finite 0 \<and> c \<noteq> NaN then c else Finite 0) (noArgs\<lparr>first := Num (Finite 0)\<rparr>)) = Finite 0"
    and gk: "skip (queryWindow
       (case snd (groupOp listOps (cloneOp listOps ([tenDocs] ! 0))) of
          [] \<Rightarrow> Finite 0
       | c # rest \<Rightarrow> if c \<noteq> Finite 0 \<and> c \<noteq> NaN then c else Finite 0) (noArgs\<lparr>first := Num (Finite 0)\<rparr>)) = Finite 0"
    by (simp_all add: cursorWindow_def queryWindow_def getOffsetWithDefault_def truthy_def
        listOps_def tenDocs_def noArgs_def Let_def toDouble_small minus_number_def)
  show ?thesis
    using empty_window_no_fetch [of listOps "[tenDocs]" 0 "noArgs\<lparr>first := Num (Finite 0)\<rparr>" None]
      c ck q qk g gk
    by simp
qed

text \<open>
  C3 as stated fails. With ten documents, \<open>after\<close> the cursor of offset 5 and \<open>before\<close>
  the cursor of offset 3, the decoded after offset is not below the before offset; the
  limit \<open>- 3\<close> reaches the source as it is, the fetch is made, and the connection has
  the three edges that the source returns.
\<close>

theorem inverted_window_fetches:
  "afterOffset (cursorWindow (Finite 10) (noArgs\<lparr>after := Some ''bW9uZ29kYmNvbm5lY3Rpb246NQ=='',
       beforeArg := Some ''bW9uZ29kYmNvbm5lY3Rpb246Mw==''\<rparr>)) = Finite 5 \<and>
   beforeOffset (cursorWindow (Finite 10) (noArgs\<lparr>after := Some ''bW9uZ29kYmNvbm5lY3Rpb246NQ=='',
       beforeArg := Some ''bW9uZ29kYmNvbm5lY3Rpb246Mw==''\<rparr>)) = Finite 3 \<and>
   calls (connectionFromMongoCursor listOps [tenDocs] 0
     (noArgs\<lparr>after := Some ''bW9uZ29kYmNvbm5lY3Rpb246NQ=='',
       beforeArg := Some ''bW9uZ29kYmNvbm5lY3Rpb246Mw==''\<rparr>) None) =
     [Clone 0, Count 1, Skip 1 (Finite 6), Limit 1 (Finite (- 3)), Fetch 1] \<and>
   map node (edges (connection (connectionFromMongoCursor listOps [tenDocs] 0
     (noArgs\<lparr>after := Some ''bW9uZ29kYmNvbm5lY3Rpb246NQ=='',
       beforeArg := Some ''bW9uZ29kYmNvbm5lY3Rpb246Mw==''\<rparr>) None))) = [6, 7, 8]"
  by (simp add: connectionFromMongoCursor_def cursorWindow_def
      getOffsetWithDefault_literals truthy_def edges_assemble arrayMap_def
      listOps_def tenDocs_def noArgs_def Let_def toDouble_small minus_number_def)

text \<open>
  C4 fails on the code. With ten documents, \<open>after\<close> the cursor of offset \<open>- 5\<close> and no
  \<open>last\<close> argument, the flag \<open>hasPreviousPage\<close> is true: the test against \<open>null\<close> lets
  the \<open>undefined\<close> argument through, the start offset is 0 and the lower bound is
  \<open>- 4\<close>.
\<close>

theorem previous_page_without_last:
  "lastArg (noArgs\<lparr>after := Some ''bW9uZ29kYmNvbm5lY3Rpb246LTU=''\<rparr>) = Undefined \<and>
   hasPreviousPage (pageInfo (connection (connectionFromMongoCursor listOps [tenDocs] 0
     (noArgs\<lparr>after := Some ''bW9uZ29kYmNvbm5lY3Rpb246LTU=''\<rparr>) None))) = True \<and>
   startOffset (cursorWindow (Finite 10) (noArgs\<lparr>after := Some ''bW9uZ29kYmNvbm5lY3Rpb246LTU=''\<rparr>)) = Finite 0 \<and>
   lowerBound (cursorWindow (Finite 10) (noArgs\<lparr>after := Some ''bW9uZ29kYmNvbm5lY3Rpb246LTU=''\<rparr>)) = Finite (- 4)"
  by (simp add: connectionFromMongoCursor_def cursorWindow_def
      getOffsetWithDefault_literals truthy_def assemble_def
      listOps_def tenDocs_def noArgs_def Let_def toDouble_small minus_number_def)

text \<open>
  C6 fails on the code. The cursor and aggregation builders work on a duplicate, and the
  caller's object is as before. The query builder works on the caller's object itself:
  after a call with \<open>first = 2\<close> the caller's query carries the limit 2.
\<close>

theorem query_builder_changes_source:
  "store (connectionFromMongooseQuery listOps [tenDocs] 0 (noArgs\<lparr>first := Num (Finite 2)\<rparr>) None) ! 0 =
     tenDocs\<lparr>limited := Finite 2\<rparr> \<and>
   tenDocs\<lparr>limited := Finite 2\<rparr> \<noteq> tenDocs \<and>
   store (connectionFromMongoCursor listOps [tenDocs] 0 (noArgs\<lparr>first := Num (Finite 2)\<rparr>) None) ! 0 =
     tenDocs \<and>
   store (connectionFromMongooseAggregate listOps [tenDocs] 0 (noArgs\<lparr>first := Num (Finite 2)\<rparr>) None) ! 0 =
     tenDocs"
  by (simp add: connectionFromMongooseQuery_def queryWindow_def cursor_builder_frame
      aggregate_builder_frame getOffsetWithDefault_def truthy_def
      listOps_def tenDocs_def noArgs_def Let_def toDouble_small minus_number_def)

end
